theory Spec2Isabelle
  imports Complex_Main "HOL-Library.Multiset"
begin

section \<open>Strings\<close>

text \<open>
  A Python \<open>str\<close> is a sequence of Unicode code points, so it is modelled as a list of
  natural numbers. \<open>str\<close> turns an ASCII literal into that representation.
\<close>

type_synonym pystr = "nat list"

definition str :: "string \<Rightarrow> pystr" where
  "str cs = map of_char cs"

text \<open>
  \<open>str.isspace\<close>, which \<open>str.strip\<close>, \<open>str.split()\<close> and the regular expression
  \<open>\s\<close> all use: the white-space code points of Python 3.
\<close>

definition isspace :: "nat \<Rightarrow> bool" where
  "isspace c \<longleftrightarrow>
     (9 \<le> c \<and> c \<le> 13) \<or> (28 \<le> c \<and> c \<le> 32) \<or> c = 133 \<or> c = 160 \<or> c = 5760 \<or>
     (8192 \<le> c \<and> c \<le> 8202) \<or> c = 8232 \<or> c = 8233 \<or> c = 8239 \<or> c = 8287 \<or> c = 12288"

text \<open>\<open>s.strip()\<close>\<close>

definition strip :: "pystr \<Rightarrow> pystr" where
  "strip s = rev (dropWhile isspace (rev (dropWhile isspace s)))"

text \<open>\<open>string.punctuation\<close>: the 32 ASCII punctuation characters.\<close>

definition punctuation :: "nat \<Rightarrow> bool" where
  "punctuation c \<longleftrightarrow>
     (33 \<le> c \<and> c \<le> 47) \<or> (58 \<le> c \<and> c \<le> 64) \<or> (91 \<le> c \<and> c \<le> 96) \<or> (123 \<le> c \<and> c \<le> 126)"

text \<open>\<open>re.sub(r'\s+', ' ', text)\<close>: the flag says whether the previous character was white space.\<close>

fun sub_spaces :: "bool \<Rightarrow> pystr \<Rightarrow> pystr" where
  "sub_spaces in_run [] = []"
| "sub_spaces in_run (c # cs) =
     (if isspace c then (if in_run then sub_spaces True cs else 32 # sub_spaces True cs)
      else c # sub_spaces False cs)"

text \<open>\<open>s.split()\<close>: the maximal runs of characters that are not white space.\<close>

fun split_words :: "pystr \<Rightarrow> pystr \<Rightarrow> pystr list" where
  "split_words cur [] = (if cur = [] then [] else [cur])"
| "split_words cur (c # cs) =
     (if isspace c then (if cur = [] then split_words [] cs else cur # split_words [] cs)
      else split_words (cur @ [c]) cs)"

text \<open>
  \<open>s.split('\n')\<close> and \<open>re.split(r'[,\<dots>]', s)\<close>: the pieces between separator characters,
  empty pieces included.
\<close>

fun split_on :: "(nat \<Rightarrow> bool) \<Rightarrow> pystr \<Rightarrow> pystr \<Rightarrow> pystr list" where
  "split_on sep cur [] = [cur]"
| "split_on sep cur (c # cs) =
     (if sep c then cur # split_on sep [] cs else split_on sep (cur @ [c]) cs)"

text \<open>\<open>pat in s\<close>\<close>

fun contains :: "pystr \<Rightarrow> pystr \<Rightarrow> bool" where
  "contains pat [] = (pat = [])"
| "contains pat (c # cs) = (take (length pat) (c # cs) = pat \<or> contains pat cs)"

text \<open>\<open>re.search(r'[A-Z]{2,}', s)\<close>: two neighbouring ASCII capitals somewhere in \<open>s\<close>.\<close>

definition upper_AZ :: "nat \<Rightarrow> bool" where
  "upper_AZ c \<longleftrightarrow> 65 \<le> c \<and> c \<le> 90"

fun has_abbreviation :: "pystr \<Rightarrow> bool" where
  "has_abbreviation (a # b # cs) = ((upper_AZ a \<and> upper_AZ b) \<or> has_abbreviation (b # cs))"
| "has_abbreviation _ = False"

section \<open>What the program takes from outside\<close>

text \<open>
  The reply of the remote grading service, after \<open>json.loads\<close>: the score is the number
  between 0 and 100 that the prompt asks for.
\<close>

record reply =
  r_score :: rat
  r_is_correct :: bool
  r_feedback :: pystr
  r_missing_points :: "pystr list"
  r_incorrect_points :: "pystr list"

text \<open>
  Four things come from the Python runtime and from the network and are parameters of the
  model:
  \<^item> \<open>str_lower\<close> is \<open>str.lower\<close> (the case mapping of the Unicode database);
  \<^item> \<open>re_digit\<close> is the character class \<open>\d\<close> (the decimal digits of the Unicode database);
  \<^item> \<open>seq_ratio a b\<close> is \<open>difflib.SequenceMatcher(None, a, b).ratio()\<close>;
  \<^item> \<open>openai_reply question example correct_answer user_answer\<close> is the parsed reply of
    \<open>openai.chat.completions.create\<close> to the prompt built from these four strings, and
    \<open>None\<close> when the call or the parsing raises.
  Python's floats are modelled by the rational numbers their literals denote.
\<close>

record env =
  str_lower :: "pystr \<Rightarrow> pystr"
  re_digit :: "nat \<Rightarrow> bool"
  seq_ratio :: "pystr \<Rightarrow> pystr \<Rightarrow> rat"
  openai_reply :: "pystr \<Rightarrow> pystr option \<Rightarrow> pystr \<Rightarrow> pystr \<Rightarrow> reply option"

section \<open>The grading engine (\<open>services/answer_comparison.py\<close>)\<close>

text \<open>\<open>preprocess_text\<close>: lower case, punctuation removed, white space normalised.\<close>

definition preprocess_text :: "env \<Rightarrow> pystr \<Rightarrow> pystr" where
  "preprocess_text E text =
     (if text = [] then []
      else strip (sub_spaces False (filter (\<lambda>c. \<not> punctuation c) (str_lower E text))))"

text \<open>
  The dict \<open>question_data\<close>, with the three keys its callers give it. The guard's tests
  for an empty dict and for a missing \<open>answer\<close> key are false on it.
\<close>

record question_data =
  qd_question :: pystr
  qd_answer :: pystr
  qd_example :: "pystr option"

text \<open>
  The feedback messages are fixed Korean sentences, one constructor each; \<open>Remote\<close> carries
  the sentence written by the remote service.
  \<^item> \<open>NoData\<close>: there is no answer or no question data;
  \<^item> \<open>Correct\<close>: the answer is correct;
  \<^item> \<open>NeedAbbreviation\<close>: the answer must be written as an English abbreviation;
  \<^item> \<open>Partial\<close>: partially correct, a more exact answer is needed;
  \<^item> \<open>Wrong\<close>: wrong, check the answer again;
  \<^item> \<open>WrongShort\<close>: wrong (the message of \<open>routers/api.py\<close>);
  \<^item> \<open>NotFound\<close>: the question cannot be found (\<open>routers/api.py\<close>).
\<close>

datatype feedback = NoData | Correct | NeedAbbreviation | Partial | Wrong | WrongShort
  | NotFound | Remote pystr

text \<open>
  The dict that grading returns. A key that is absent and a key whose value is \<open>None\<close>
  are both \<open>None\<close> here.
\<close>

record verdict =
  is_correct :: bool
  score :: rat
  feedback :: feedback
  missing_points :: "pystr list"
  incorrect_points :: "pystr list"
  correct_answer :: "pystr option"
  example :: "pystr option"

text \<open>\<open>example if example else None\<close>\<close>

definition example_or_None :: "pystr option \<Rightarrow> pystr option" where
  "example_or_None ex = (case ex of None \<Rightarrow> None | Some e \<Rightarrow> if e = [] then None else Some e)"

text \<open>
  \<open>re.match(r'(\d+)\.\s*(.*)', s)\<close> and its two groups: digits, a full stop, white
  space, and the rest of the line (\<open>.\<close> does not match the line feed, code point 10).
\<close>

definition match_option :: "env \<Rightarrow> pystr \<Rightarrow> (pystr \<times> pystr) option" where
  "match_option E s =
     (let option_num = takeWhile (re_digit E) s in
      if option_num = [] then None
      else (case dropWhile (re_digit E) s of
              [] \<Rightarrow> None
            | c # rest \<Rightarrow>
                if c = 46 then Some (option_num, takeWhile (\<lambda>c. c \<noteq> 10) (dropWhile isspace rest))
                else None))"

text \<open>
  Stage 2, the loop over the lines of the example block. Both of its \<open>return\<close> statements
  return the same dict, so the loop is modelled by whether it returns.
\<close>

fun option_accepts :: "env \<Rightarrow> pystr \<Rightarrow> pystr \<Rightarrow> pystr list \<Rightarrow> bool" where
  "option_accepts E correct user_answer [] = False"
| "option_accepts E correct user_answer (option # options) =
     (case match_option E (strip option) of
        None \<Rightarrow> option_accepts E correct user_answer options
      | Some (option_num, text) \<Rightarrow>
          (let option_text = strip text in
           if correct = option_num then
             (if strip user_answer = option_num
                 \<or> preprocess_text E user_answer = preprocess_text E option_text
              then True else option_accepts E correct user_answer options)
           else if preprocess_text E correct = preprocess_text E option_text then
             (if strip user_answer = option_num
                 \<or> preprocess_text E user_answer = preprocess_text E option_text
              then True else option_accepts E correct user_answer options)
           else option_accepts E correct user_answer options))"

definition option_stage :: "env \<Rightarrow> pystr \<Rightarrow> pystr \<Rightarrow> pystr option \<Rightarrow> bool" where
  "option_stage E correct user_answer ex =
     (case example_or_None ex of
        None \<Rightarrow> False
      | Some e \<Rightarrow> option_accepts E correct user_answer (split_on (\<lambda>c. c = 10) [] e))"

text \<open>
  Stage 3: the question asks for an English abbreviation (with or without the space
  between the two Korean words), the stored answer has one, the user's answer has none.
\<close>

definition abbreviation_spaced :: pystr where
  "abbreviation_spaced = [50689, 47928, 32, 50557, 50612]"

definition abbreviation_joined :: pystr where
  "abbreviation_joined = [50689, 47928, 50557, 50612]"

definition abbreviation_format :: pystr where
  "abbreviation_format = [50689, 47928, 32, 50557, 50612, 32, 54805, 49885]"

definition format_veto :: "pystr \<Rightarrow> pystr \<Rightarrow> pystr \<Rightarrow> bool" where
  "format_veto question correct user_answer \<longleftrightarrow>
     (contains abbreviation_spaced question \<or> contains abbreviation_joined question)
     \<and> has_abbreviation correct \<and> \<not> has_abbreviation user_answer"

text \<open>Stage 4: the comma and the full-width comma (code point 65292) separate the items.\<close>

definition comma :: "nat \<Rightarrow> bool" where
  "comma c \<longleftrightarrow> c = 44 \<or> c = 65292"

definition list_items :: "pystr \<Rightarrow> pystr list" where
  "list_items s = map strip (split_on comma [] s)"

definition list_stage :: "env \<Rightarrow> pystr \<Rightarrow> pystr \<Rightarrow> bool" where
  "list_stage E correct user_answer \<longleftrightarrow>
     (\<exists>c \<in> set correct. comma c)
     \<and> length (list_items correct) = length (list_items user_answer)
     \<and> list_all (\<lambda>(c, u). preprocess_text E c = preprocess_text E u)
          (zip (list_items correct) (list_items user_answer))"

text \<open>Stage 5: the remote reply, with the score brought to the range 0 to 1.\<close>

definition advanced_verdict :: "pystr \<Rightarrow> pystr option \<Rightarrow> reply \<Rightarrow> verdict" where
  "advanced_verdict correct ex r =
     \<lparr>is_correct = r_is_correct r, score = r_score r / 100, feedback = Remote (r_feedback r),
      missing_points = r_missing_points r, incorrect_points = r_incorrect_points r,
      correct_answer = Some correct, example = example_or_None ex\<rparr>"

text \<open>Stage 6: similarity of the normalised strings and the share of the answer's words.\<close>

definition simple_verdict :: "env \<Rightarrow> pystr \<Rightarrow> pystr option \<Rightarrow> pystr \<Rightarrow> verdict" where
  "simple_verdict E correct ex user_answer =
     (let similarity = seq_ratio E (preprocess_text E user_answer) (preprocess_text E correct);
          correct_words = split_words [] (preprocess_text E correct);
          user_words = split_words [] (preprocess_text E user_answer);
          common_words = remdups (filter (\<lambda>w. w \<in> set user_words) correct_words);
          keyword_match_ratio =
            (if correct_words \<noteq> [] then of_nat (length common_words) / of_nat (length correct_words)
             else 0);
          final_score = 4 / 10 * similarity + 6 / 10 * keyword_match_ratio
      in \<lparr>is_correct = (final_score \<ge> 7 / 10), score = final_score,
          feedback = (if final_score \<ge> 7 / 10 then Correct
                      else if final_score \<ge> 5 / 10 then Partial else Wrong),
          missing_points = [], incorrect_points = [],
          correct_answer = Some correct, example = example_or_None ex\<rparr>)"

text \<open>The verdicts of the stages that return a fixed dict.\<close>

definition no_data_verdict :: verdict where
  "no_data_verdict =
     \<lparr>is_correct = False, score = 0, feedback = NoData, missing_points = [],
      incorrect_points = [], correct_answer = None, example = None\<rparr>"

definition correct_verdict :: "pystr \<Rightarrow> pystr option \<Rightarrow> verdict" where
  "correct_verdict correct ex =
     \<lparr>is_correct = True, score = 1, feedback = Correct, missing_points = [],
      incorrect_points = [], correct_answer = Some correct, example = ex\<rparr>"

definition veto_verdict :: "pystr \<Rightarrow> pystr option \<Rightarrow> verdict" where
  "veto_verdict correct ex =
     \<lparr>is_correct = False, score = 1 / 10, feedback = NeedAbbreviation,
      missing_points = [abbreviation_format], incorrect_points = [],
      correct_answer = Some correct, example = example_or_None ex\<rparr>"

text \<open>\<open>evaluate_answer(user_answer, question_data, use_advanced)\<close>, the cascade.\<close>

definition evaluate_answer :: "env \<Rightarrow> pystr \<Rightarrow> question_data \<Rightarrow> bool \<Rightarrow> verdict" where
  "evaluate_answer E user_answer qd use_advanced =
     (if user_answer = [] then no_data_verdict
      else
        (let correct = strip (qd_answer qd);
             question = qd_question qd;
             ex = qd_example qd
         in if strip user_answer = correct then correct_verdict correct None
            else if option_stage E correct user_answer ex then correct_verdict correct ex
            else if format_veto question correct user_answer then veto_verdict correct ex
            else if list_stage E correct user_answer
              then correct_verdict correct (example_or_None ex)
            else (case (if use_advanced then openai_reply E question ex correct user_answer
                        else None) of
                    Some r \<Rightarrow> advanced_verdict correct ex r
                  | None \<Rightarrow> simple_verdict E correct ex user_answer)))"

section \<open>An environment for concrete inputs\<close>

text \<open>
  The theorems below hold for every environment. Evaluating the program at a concrete
  input needs a concrete one. \<open>offline\<close> is the environment of a machine without
  network access: every remote call raises. Its case mapping and its digits are the
  ASCII ones, which is what \<open>str.lower\<close> and \<open>\d\<close> do on strings whose letters
  and digits are ASCII (Hangul has neither case nor digits). Its \<open>ratio\<close> is
  \<open>SequenceMatcher.ratio\<close> on sequences of fewer than 200 elements, where the library
  treats no element as junk: twice the number of matched elements over the sum of the
  two lengths, the matched elements being those of the longest common block (the first one
  in \<open>a\<close>, then in \<open>b\<close>, among the longest) and, recursively, of the pieces to its left
  and to its right.
\<close>

definition ascii_lower :: "pystr \<Rightarrow> pystr" where
  "ascii_lower s = map (\<lambda>c. if upper_AZ c then c + 32 else c) s"

definition ascii_digit :: "nat \<Rightarrow> bool" where
  "ascii_digit c \<longleftrightarrow> 48 \<le> c \<and> c \<le> 57"

fun common_prefix :: "pystr \<Rightarrow> pystr \<Rightarrow> nat" where
  "common_prefix (x # xs) (y # ys) = (if x = y then Suc (common_prefix xs ys) else 0)"
| "common_prefix _ _ = 0"

definition longer_match :: "pystr \<Rightarrow> pystr \<Rightarrow> nat \<times> nat \<times> nat \<Rightarrow> nat \<times> nat \<Rightarrow> nat \<times> nat \<times> nat" where
  "longer_match a b best p =
     (case best of (besti, bestj, bestsize) \<Rightarrow>
        (case p of (i, j) \<Rightarrow>
           (let k = common_prefix (drop i a) (drop j b)
            in if k > bestsize then (i, j, k) else (besti, bestj, bestsize))))"

definition find_longest_match :: "pystr \<Rightarrow> pystr \<Rightarrow> nat \<times> nat \<times> nat" where
  "find_longest_match a b =
     foldl (longer_match a b) (0, 0, 0) (List.product [0..<length a] [0..<length b])"

lemma longer_match_inside:
  "foldl (longer_match a b) acc ps = (i, j, k) \<Longrightarrow>
   list_all (\<lambda>(i, j). i < length a \<and> j < length b) ps \<Longrightarrow>
   (case acc of (i, j, k) \<Rightarrow> k = 0 \<or> (i < length a \<and> j < length b)) \<Longrightarrow>
   k = 0 \<or> (i < length a \<and> j < length b)"
proof (induction ps arbitrary: acc)
  case Nil
  then show ?case by auto
next
  case (Cons p ps)
  have "foldl (longer_match a b) (longer_match a b acc p) ps = (i, j, k)"
    using Cons.prems(1) by simp
  moreover have "list_all (\<lambda>(i, j). i < length a \<and> j < length b) ps"
    using Cons.prems(2) by simp
  moreover have "case longer_match a b acc p of (i, j, k) \<Rightarrow> k = 0 \<or> (i < length a \<and> j < length b)"
    using Cons.prems(2,3) by (auto simp: longer_match_def Let_def split: prod.splits)
  ultimately show ?case by (rule Cons.IH)
qed

lemma find_longest_match_inside:
  "find_longest_match a b = (i, j, k) \<Longrightarrow> k = 0 \<or> (i < length a \<and> j < length b)"
  unfolding find_longest_match_def
  by (erule longer_match_inside) (auto simp: list_all_iff)

function matching_size :: "pystr \<Rightarrow> pystr \<Rightarrow> nat" where
  "matching_size a b =
     (case find_longest_match a b of (i, j, k) \<Rightarrow>
        if k = 0 then 0
        else k + matching_size (take i a) (take j b)
               + matching_size (drop (i + k) a) (drop (j + k) b))"
  by pat_completeness auto
termination
  apply (relation "measure (\<lambda>(a, b). length a + length b)")
    apply simp
   apply (auto dest!: find_longest_match_inside[OF sym])
  done

text \<open>The library declares \<open>ratio\<close> of two empty sequences to be 1.\<close>

definition ratio :: "pystr \<Rightarrow> pystr \<Rightarrow> rat" where
  "ratio a b =
     (if length a + length b = 0 then 1
      else 2 * of_nat (matching_size a b) / of_nat (length a + length b))"

definition offline :: env where
  "offline =
     \<lparr>str_lower = ascii_lower, re_digit = ascii_digit, seq_ratio = ratio,
      openai_reply = (\<lambda>question ex correct user_answer. None)\<rparr>"

section \<open>The store (\<open>models/models.py\<close>)\<close>

text \<open>
  The nine question classes have the same columns, so one record is the row type of all
  nine tables. \<open>QUESTION_TYPE_MAPPING\<close> is the dict from category names to classes, in
  the order the source writes it (a Python dict iterates in insertion order).
\<close>

datatype category = OS | DB | Network | Algorithm | Program | AppTest | AppDefect
  | BaseSQL | HardSQL

definition QUESTION_TYPE_MAPPING :: "(pystr \<times> category) list" where
  "QUESTION_TYPE_MAPPING =
     [(str ''os'', OS), (str ''db'', DB), (str ''network'', Network),
      (str ''algorithm'', Algorithm), (str ''program'', Program),
      (str ''app_test'', AppTest), (str ''app_defect'', AppDefect),
      (str ''base_sql'', BaseSQL), (str ''hard_sql'', HardSQL)]"

record question =
  q_id :: pystr
  q_question :: pystr
  q_answer :: pystr
  q_example :: "pystr option"
  q_difficulty :: int
  q_keywords :: "pystr option"

record user =
  u_id :: pystr
  u_username :: pystr
  u_email :: pystr

record user_wrong_answer =
  wa_id :: nat
  wa_user_id :: pystr
  wa_question_id :: pystr
  wa_question_category :: pystr
  wa_user_answer :: "pystr option"
  wa_created_at :: nat
  wa_attempt_count :: int
  wa_keywords :: "pystr option"

text \<open>
  The state of the store: the rows of each table in the order a query without
  \<open>ORDER BY\<close> returns them, the tables on which a query raises (\<open>broken\<close>), and the
  store's \<open>LIKE\<close> (\<open>sql_like pattern value\<close>), which depends on its collation.
\<close>

datatype table = Questions category | Users | UserWrongAnswers

record database =
  rows :: "category \<Rightarrow> question list"
  users :: "user list"
  user_wrong_answers :: "user_wrong_answer list"
  broken :: "table \<Rightarrow> bool"
  sql_like :: "pystr \<Rightarrow> pystr \<Rightarrow> bool"

text \<open>The exceptions of the model; \<open>HTTPException\<close> carries the status code.\<close>

datatype exn = SQLAlchemyError | KeyError | HTTPException nat

text \<open>\<open>db.query(model).all()\<close> and \<open>db.query(model).filter(model.id == question_id).first()\<close>\<close>

definition query_all :: "database \<Rightarrow> category \<Rightarrow> exn + question list" where
  "query_all db c = (if broken db (Questions c) then Inl SQLAlchemyError else Inr (rows db c))"

definition query_first :: "database \<Rightarrow> category \<Rightarrow> pystr \<Rightarrow> exn + question option" where
  "query_first db c question_id =
     (case query_all db c of
        Inl e \<Rightarrow> Inl e
      | Inr qs \<Rightarrow> Inr (find (\<lambda>q. q_id q = question_id) qs))"

text \<open>\<open>db.query(User).filter(User.id == user_id).first()\<close>\<close>

definition query_user :: "database \<Rightarrow> pystr \<Rightarrow> exn + user option" where
  "query_user db uid =
     (if broken db Users then Inl SQLAlchemyError
      else Inr (find (\<lambda>u. u_id u = uid) (users db)))"

section \<open>Grading over HTTP (\<open>routers/api.py\<close>)\<close>

text \<open>
  The router has an \<open>evaluate_answer\<close> of its own, written, as its comment says, instead
  of the one of the \<open>answer_comparison\<close> module. Its dict has no lists of points; the
  endpoint reads them with the default \<open>[]\<close>.
\<close>

definition api_evaluate_answer :: "env \<Rightarrow> pystr \<Rightarrow> question_data \<Rightarrow> verdict" where
  "api_evaluate_answer E user_answer qd =
     (let matches = (strip (str_lower E user_answer) = strip (str_lower E (qd_answer qd)))
      in \<lparr>is_correct = matches, score = (if matches then 1 else 0),
          feedback = (if matches then Correct else WrongShort),
          missing_points = [], incorrect_points = [],
          correct_answer = Some (qd_answer qd), example = qd_example qd\<rparr>)"

text \<open>\<open>question_id.split('-')[0] if '-' in question_id else None\<close>\<close>

definition id_category :: "pystr \<Rightarrow> pystr option" where
  "id_category question_id =
     (if 45 \<in> set question_id then Some (takeWhile (\<lambda>c. c \<noteq> 45) question_id) else None)"

text \<open>\<open>not category or category not in QUESTION_TYPE_MAPPING\<close>\<close>

definition no_known_category :: "pystr option \<Rightarrow> bool" where
  "no_known_category category \<longleftrightarrow>
     (case category of None \<Rightarrow> True
      | Some name \<Rightarrow> name = [] \<or> map_of QUESTION_TYPE_MAPPING name = None)"

text \<open>The loop that looks for the id in every table and stops at the first hit.\<close>

fun scan_tables :: "database \<Rightarrow> pystr \<Rightarrow> (pystr \<times> category) list
    \<Rightarrow> exn + (pystr \<times> question) option" where
  "scan_tables db question_id [] = Inr None"
| "scan_tables db question_id ((model_type, model) # rest) =
     (case query_first db model question_id of
        Inl e \<Rightarrow> Inl e
      | Inr (Some q) \<Rightarrow> Inr (Some (model_type, q))
      | Inr None \<Rightarrow> scan_tables db question_id rest)"

text \<open>Python's \<open>round\<close> of a float to an integer: halves go to the even neighbour.\<close>

definition py_round :: "rat \<Rightarrow> int" where
  "py_round x =
     (let f = \<lfloor>x\<rfloor>; d = x - of_int f
      in if d < 1 / 2 then f else if d > 1 / 2 then f + 1 else if even f then f else f + 1)"

record answer_request =
  question_id :: pystr
  answer :: pystr

text \<open>
  The lookup of the question in \<open>evaluate_user_answer\<close>: the table named by the prefix of
  the id, or the first table that has the id. An unknown prefix that no table resolves
  is still the key into the mapping, which raises.
\<close>

definition find_question :: "database \<Rightarrow> pystr \<Rightarrow> exn + question" where
  "find_question db qid =
     (let category = id_category qid;
          resolved =
            (if no_known_category category then
               (case scan_tables db qid QUESTION_TYPE_MAPPING of
                  Inl e \<Rightarrow> Inl e
                | Inr (Some (model_type, q)) \<Rightarrow> Inr (Some model_type)
                | Inr None \<Rightarrow>
                    if category = None \<or> category = Some [] then Inl (HTTPException 404)
                    else Inr category)
             else Inr category)
      in case resolved of
           Inl e \<Rightarrow> Inl e
         | Inr None \<Rightarrow> Inl KeyError
         | Inr (Some name) \<Rightarrow>
             (case map_of QUESTION_TYPE_MAPPING name of
                None \<Rightarrow> Inl KeyError
              | Some model \<Rightarrow>
                  (case query_first db model qid of
                     Inl e \<Rightarrow> Inl e
                   | Inr None \<Rightarrow> Inl (HTTPException 404)
                   | Inr (Some q) \<Rightarrow> Inr q)))"

text \<open>
  \<open>POST /api/evaluate\<close>. Every exception of the body, the 404 included, is caught by
  the handler's \<open>except Exception\<close> and raised again with status 500.
\<close>

definition evaluate_user_answer :: "env \<Rightarrow> database \<Rightarrow> answer_request \<Rightarrow> exn + verdict" where
  "evaluate_user_answer E db request =
     (case find_question db (question_id request) of
        Inl e \<Rightarrow> Inl (HTTPException 500)
      | Inr q \<Rightarrow>
          (let question_data =
                 \<lparr>qd_question = q_question q, qd_answer = q_answer q, qd_example = q_example q\<rparr>;
               evaluation_result = api_evaluate_answer E (answer request) question_data
           in Inr \<lparr>is_correct = is_correct evaluation_result,
                   score = of_int (py_round (score evaluation_result * 100)) / 100,
                   feedback = feedback evaluation_result,
                   missing_points = missing_points evaluation_result,
                   incorrect_points = incorrect_points evaluation_result,
                   correct_answer = correct_answer evaluation_result,
                   example = example evaluation_result\<rparr>))"

section \<open>Submitting a test and recording misses (\<open>routers/api.py\<close>)\<close>

text \<open>
  One entry of \<open>submission.answers\<close> is a dict; either key may be absent. A detail's
  correct answer is \<open>None\<close> where the source writes the Korean word for unknown.
\<close>

record answer_data =
  ad_question_id :: "pystr option"
  ad_answer :: "pystr option"

record test_submission =
  ts_answers :: "answer_data list"
  ts_user_id :: "pystr option"

record result_detail =
  rd_question_id :: pystr
  rd_is_correct :: bool
  rd_points :: int
  rd_user_answer :: pystr
  rd_correct_answer :: "pystr option"
  rd_feedback :: feedback

record test_result =
  tr_correct_count :: int
  tr_total_questions :: nat
  tr_score :: int
  tr_result_details :: "result_detail list"
  tr_is_passed :: bool

text \<open>The row of a user and a question, as \<open>filter(\<dots>).first()\<close> finds it.\<close>

definition same_pair :: "pystr \<Rightarrow> pystr \<Rightarrow> user_wrong_answer \<Rightarrow> bool" where
  "same_pair uid qid w \<longleftrightarrow> wa_user_id w = uid \<and> wa_question_id w = qid"

text \<open>The first row that satisfies \<open>P\<close> is changed in place.\<close>

fun update_first :: "('a \<Rightarrow> bool) \<Rightarrow> ('a \<Rightarrow> 'a) \<Rightarrow> 'a list \<Rightarrow> 'a list" where
  "update_first P f [] = []"
| "update_first P f (x # xs) = (if P x then f x # xs else x # update_first P f xs)"

text \<open>The auto-incremented primary key of a new row.\<close>

definition next_id :: "user_wrong_answer list \<Rightarrow> nat" where
  "next_id was = Suc (fold max (map wa_id was) 0)"

text \<open>
  The block of \<open>submit_test\<close> that stores a miss: the existing row of the pair gets one
  more attempt, the new answer and the new time; without one a row is added, with the
  column default 1 as its count. \<open>now\<close> is the value of \<open>func.now()\<close>.
\<close>

definition record_miss :: "nat \<Rightarrow> pystr \<Rightarrow> pystr \<Rightarrow> pystr \<Rightarrow> pystr \<Rightarrow> pystr option
    \<Rightarrow> user_wrong_answer list \<Rightarrow> user_wrong_answer list" where
  "record_miss now uid qid category user_ans kws was =
     (case find (same_pair uid qid) was of
        Some existing_wrong \<Rightarrow>
          update_first (same_pair uid qid)
            (\<lambda>w. w\<lparr>wa_attempt_count := wa_attempt_count w + 1,
                   wa_user_answer := Some user_ans, wa_created_at := now\<rparr>) was
      | None \<Rightarrow>
          was @ [\<lparr>wa_id = next_id was, wa_user_id = uid, wa_question_id = qid,
                  wa_question_category = category, wa_user_answer = Some user_ans,
                  wa_created_at = now, wa_attempt_count = 1, wa_keywords = kws\<rparr>])"

text \<open>
  The lookup of \<open>submit_test\<close>: the table of the id's prefix when the prefix is a known
  category, every table otherwise. It gives the category name with the row.
\<close>

definition submit_lookup :: "database \<Rightarrow> pystr \<Rightarrow> exn + (pystr \<times> question) option" where
  "submit_lookup db qid =
     (case id_category qid of
        None \<Rightarrow> scan_tables db qid QUESTION_TYPE_MAPPING
      | Some name \<Rightarrow>
          (if name \<noteq> [] \<and> map_of QUESTION_TYPE_MAPPING name \<noteq> None then
             (case map_of QUESTION_TYPE_MAPPING name of
                None \<Rightarrow> Inl KeyError
              | Some model \<Rightarrow>
                  (case query_first db model qid of
                     Inl e \<Rightarrow> Inl e
                   | Inr None \<Rightarrow> Inr None
                   | Inr (Some q) \<Rightarrow> Inr (Some (name, q))))
           else scan_tables db qid QUESTION_TYPE_MAPPING))"

text \<open>
  The state of the loop over the answers: the store (every miss is committed at once, so
  what is stored stays stored when a later step raises), the count of correct answers and
  the details.
\<close>

record grading =
  g_db :: database
  g_correct_count :: int
  g_result_details :: "result_detail list"

definition grade_one :: "env \<Rightarrow> nat \<Rightarrow> user option \<Rightarrow> answer_data \<Rightarrow> grading
    \<Rightarrow> exn option \<times> grading" where
  "grade_one E now usr answer_data st =
     (let user_ans = strip (case ad_answer answer_data of None \<Rightarrow> [] | Some a \<Rightarrow> a)
      in case ad_question_id answer_data of
           None \<Rightarrow> (None, st)
         | Some qid \<Rightarrow>
             if qid = [] then (None, st)
             else
               (case submit_lookup (g_db st) qid of
                  Inl e \<Rightarrow> (Some e, st)
                | Inr None \<Rightarrow>
                    (None, st\<lparr>g_result_details := g_result_details st @
                       [\<lparr>rd_question_id = qid, rd_is_correct = False, rd_points = 0,
                         rd_user_answer = user_ans, rd_correct_answer = None,
                         rd_feedback = NotFound\<rparr>]\<rparr>)
                | Inr (Some (category, q)) \<Rightarrow>
                    (let right = (str_lower E user_ans = str_lower E (q_answer q));
                         detail =
                           \<lparr>rd_question_id = qid, rd_is_correct = right,
                            rd_points = (if right then 5 else 0), rd_user_answer = user_ans,
                            rd_correct_answer = Some (q_answer q),
                            rd_feedback = (if right then Correct else WrongShort)\<rparr>
                     in if right then
                          (None, st\<lparr>g_correct_count := g_correct_count st + 1,
                                    g_result_details := g_result_details st @ [detail]\<rparr>)
                        else
                          (case usr of
                             None \<Rightarrow> (None, st\<lparr>g_result_details := g_result_details st @ [detail]\<rparr>)
                           | Some u \<Rightarrow>
                               if broken (g_db st) UserWrongAnswers then (Some SQLAlchemyError, st)
                               else
                                 (None,
                                  st\<lparr>g_db := (g_db st)\<lparr>user_wrong_answers :=
                                         record_miss now (u_id u) qid category user_ans
                                           (q_keywords q) (user_wrong_answers (g_db st))\<rparr>,
                                     g_result_details := g_result_details st @ [detail]\<rparr>)))))"

fun grade_all :: "env \<Rightarrow> nat \<Rightarrow> user option \<Rightarrow> answer_data list \<Rightarrow> grading
    \<Rightarrow> exn option \<times> grading" where
  "grade_all E now usr [] st = (None, st)"
| "grade_all E now usr (answer_data # rest) st =
     (case grade_one E now usr answer_data st of
        (Some e, st') \<Rightarrow> (Some e, st')
      | (None, st') \<Rightarrow> grade_all E now usr rest st')"

text \<open>
  \<open>POST /api/submit-test\<close>: the result, or the status 500 that the handler raises for
  every exception, and the store as the request leaves it.
\<close>

definition submit_test :: "env \<Rightarrow> nat \<Rightarrow> database \<Rightarrow> test_submission
    \<Rightarrow> (exn + test_result) \<times> database" where
  "submit_test E now db submission =
     (case (case ts_user_id submission of
              None \<Rightarrow> Inr None
            | Some uid \<Rightarrow> if uid = [] then Inr None else query_user db uid) of
        Inl e \<Rightarrow> (Inl (HTTPException 500), db)
      | Inr usr \<Rightarrow>
          (case grade_all E now usr (ts_answers submission)
                  \<lparr>g_db = db, g_correct_count = 0, g_result_details = []\<rparr> of
             (Some e, st) \<Rightarrow> (Inl (HTTPException 500), g_db st)
           | (None, st) \<Rightarrow>
               (let total_score = g_correct_count st * 5
                in (Inr \<lparr>tr_correct_count = g_correct_count st,
                         tr_total_questions = length (ts_answers submission),
                         tr_score = total_score,
                         tr_result_details = g_result_details st,
                         tr_is_passed = (total_score \<ge> 60)\<rparr>,
                    g_db st))))"

text \<open>The invariant of the table of misses: no two rows have the same user and question.\<close>

definition unique_pairs :: "user_wrong_answer list \<Rightarrow> bool" where
  "unique_pairs was \<longleftrightarrow> distinct (map (\<lambda>w. (wa_user_id w, wa_question_id w)) was)"

section \<open>The random source\<close>

text \<open>
  \<open>random.sample\<close> and \<open>random.shuffle\<close> are parameters: from the state of the
  generator and the length of a sequence, \<open>rnd_sample\<close> gives the positions of the
  \<open>k\<close> elements it draws and \<open>rnd_shuffle\<close> the positions in their new order, each with
  the next state. The first state is what \<open>random.seed\<close> makes of the clock.
\<close>

record 'r random =
  rnd_sample :: "'r \<Rightarrow> nat \<Rightarrow> nat \<Rightarrow> nat list \<times> 'r"
  rnd_shuffle :: "'r \<Rightarrow> nat \<Rightarrow> nat list \<times> 'r"

definition random_sample :: "'r random \<Rightarrow> 'r \<Rightarrow> 'a list \<Rightarrow> nat \<Rightarrow> 'a list \<times> 'r" where
  "random_sample R g xs k =
     (case rnd_sample R g (length xs) k of (ps, g') \<Rightarrow> (map (\<lambda>p. xs ! p) ps, g'))"

definition random_shuffle :: "'r random \<Rightarrow> 'r \<Rightarrow> 'a list \<Rightarrow> 'a list \<times> 'r" where
  "random_shuffle R g xs =
     (case rnd_shuffle R g (length xs) of (ps, g') \<Rightarrow> (map (\<lambda>p. xs ! p) ps, g'))"

text \<open>
  What the library promises of the two: a sample of \<open>k\<close> out of \<open>n\<close> is \<open>k\<close> different
  positions below \<open>n\<close>, a shuffle of \<open>n\<close> is a permutation of the positions below \<open>n\<close>.
\<close>

definition valid_random :: "'r random \<Rightarrow> bool" where
  "valid_random R \<longleftrightarrow>
     (\<forall>g n k. k \<le> n \<longrightarrow>
        length (fst (rnd_sample R g n k)) = k \<and> distinct (fst (rnd_sample R g n k))
        \<and> (\<forall>p \<in> set (fst (rnd_sample R g n k)). p < n))
     \<and> (\<forall>g n. mset (fst (rnd_shuffle R g n)) = mset [0..<n])"

text \<open>A random source for concrete inputs: the first \<open>k\<close> positions, and no change of order.\<close>

definition first_positions :: "unit random" where
  "first_positions =
     \<lparr>rnd_sample = (\<lambda>g n k. ([0..<k], g)), rnd_shuffle = (\<lambda>g n. ([0..<n], g))\<rparr>"

section \<open>Test assembly by quota (\<open>routers/api.py\<close>)\<close>

record test_config_request =
  os_count :: int
  network_count :: int
  db_count :: int
  sql_count :: int
  basic_sql_ratio :: rat
  program_count :: int
  app_count :: int
  app_test_ratio :: rat

text \<open>\<open>int(x)\<close> of a float: the fraction is cut off.\<close>

definition py_int :: "rat \<Rightarrow> int" where
  "py_int x = (if x < 0 then \<lceil>x\<rceil> else \<lfloor>x\<rfloor>)"

text \<open>
  The block that \<open>create_custom_test\<close> repeats for each table: all ids, then a sample of
  the wanted number of them and the rows with these ids when the table has that many, and all
  rows of the table otherwise.
\<close>

definition select_questions :: "'r random \<Rightarrow> database \<Rightarrow> category \<Rightarrow> int \<Rightarrow> 'r
    \<Rightarrow> exn + (question list \<times> 'r)" where
  "select_questions R db c wanted g =
     (case query_all db c of
        Inl e \<Rightarrow> Inl e
      | Inr qs \<Rightarrow>
          (let all_ids = map q_id qs
           in if int (length all_ids) \<ge> wanted then
                (case random_sample R g all_ids (nat wanted) of
                   (selected_ids, g') \<Rightarrow> Inr (filter (\<lambda>q. q_id q \<in> set selected_ids) qs, g'))
              else Inr (qs, g)))"

text \<open>
  The blocks in the order of the source, each with the count it is guarded by
  (\<open>if \<dots>_count > 0\<close>); the two SQL blocks and the two application blocks stand under the
  guard of their sum.
\<close>

definition quota_plan :: "test_config_request \<Rightarrow> (category \<times> int) list" where
  "quota_plan config =
     [(OS, os_count config), (Network, network_count config), (DB, db_count config)]
     @ (if sql_count config > 0 then
          (let basic_sql_count = py_int (of_int (sql_count config) * basic_sql_ratio config);
               hard_sql_count = sql_count config - basic_sql_count
           in [(BaseSQL, basic_sql_count), (HardSQL, hard_sql_count)])
        else [])
     @ [(Program, program_count config)]
     @ (if app_count config > 0 then
          (let app_test_count = py_int (of_int (app_count config) * app_test_ratio config);
               app_defect_count = app_count config - app_test_count
           in [(AppTest, app_test_count), (AppDefect, app_defect_count)])
        else [])"

fun select_each :: "'r random \<Rightarrow> database \<Rightarrow> (category \<times> int) list \<Rightarrow> 'r
    \<Rightarrow> exn + (question list \<times> 'r)" where
  "select_each R db [] g = Inr ([], g)"
| "select_each R db ((c, wanted) # plan) g =
     (if wanted > 0 then
        (case select_questions R db c wanted g of
           Inl e \<Rightarrow> Inl e
         | Inr (qs, g') \<Rightarrow>
             (case select_each R db plan g' of
                Inl e \<Rightarrow> Inl e
              | Inr (result, g'') \<Rightarrow> Inr (qs @ result, g'')))
      else select_each R db plan g)"

text \<open>\<open>POST /api/custom-test\<close>: an exception of the body makes the result the empty list.\<close>

definition create_custom_test :: "'r random \<Rightarrow> 'r \<Rightarrow> database \<Rightarrow> test_config_request
    \<Rightarrow> question list" where
  "create_custom_test R g db config =
     (case select_each R db (quota_plan config) g of
        Inl e \<Rightarrow> []
      | Inr (result, g') \<Rightarrow> fst (random_shuffle R g' result))"

text \<open>\<open>GET /api/standard-test\<close> and the configuration it builds.\<close>

definition standard_config :: test_config_request where
  "standard_config =
     \<lparr>os_count = 3, network_count = 3, db_count = 3, sql_count = 4, basic_sql_ratio = 1 / 2,
      program_count = 6, app_count = 1, app_test_ratio = 1 / 2\<rparr>"

definition create_standard_test :: "'r random \<Rightarrow> 'r \<Rightarrow> database \<Rightarrow> question list" where
  "create_standard_test R g db = create_custom_test R g db standard_config"

section \<open>The personalized test (\<open>routers/api.py\<close>)\<close>

text \<open>
  \<open>keyword_frequency\<close> is a dict that is iterated, so it is an association list in the
  order of insertion. \<open>bump\<close> is
  \<open>keyword_frequency[keyword] = keyword_frequency.get(keyword, 0) + 1\<close>.
\<close>

definition bump :: "(pystr \<times> nat) list \<Rightarrow> pystr \<Rightarrow> (pystr \<times> nat) list" where
  "bump kf keyword =
     (if keyword \<in> set (map fst kf)
      then map (\<lambda>(k, n). if k = keyword then (k, n + 1) else (k, n)) kf
      else kf @ [(keyword, 1)])"

definition count_keywords :: "user_wrong_answer list \<Rightarrow> (pystr \<times> nat) list" where
  "count_keywords wrong_answers =
     fold (\<lambda>wa kf.
             (case wa_keywords wa of
                None \<Rightarrow> kf
              | Some ks \<Rightarrow>
                  if ks = [] then kf
                  else fold (\<lambda>keyword kf. if strip keyword \<noteq> [] then bump kf (strip keyword) else kf)
                         (split_on (\<lambda>c. c = 44) [] ks) kf))
          wrong_answers []"

text \<open>
  The search of one table for the questions whose keywords are like each keyword, the
  keywords in the order of falling weight; the pattern is the keyword between two
  percent signs (code point 37).
\<close>

fun search_category :: "database \<Rightarrow> int \<Rightarrow> rat \<Rightarrow> category \<Rightarrow> (pystr \<times> rat) list
    \<Rightarrow> exn + question list" where
  "search_category db total_questions wrong_ratio c [] = Inr []"
| "search_category db total_questions wrong_ratio c ((keyword, weight) # weights) =
     (case query_all db c of
        Inl e \<Rightarrow> Inl e
      | Inr qs \<Rightarrow>
          (let search_limit = max 1 (py_int (of_int total_questions * wrong_ratio * weight * 2));
               keyword_matches =
                 take (nat search_limit)
                   (filter (\<lambda>q. case q_keywords q of
                                   None \<Rightarrow> False
                                 | Some ks \<Rightarrow> sql_like db (37 # keyword @ [37]) ks) qs)
           in case search_category db total_questions wrong_ratio c weights of
                Inl e \<Rightarrow> Inl e
              | Inr rest \<Rightarrow> Inr (keyword_matches @ rest)))"

fun search_all :: "database \<Rightarrow> int \<Rightarrow> rat \<Rightarrow> (pystr \<times> rat) list \<Rightarrow> category list
    \<Rightarrow> exn + question list" where
  "search_all db total_questions wrong_ratio weights [] = Inr []"
| "search_all db total_questions wrong_ratio weights (c # cs) =
     (case search_category db total_questions wrong_ratio c weights of
        Inl e \<Rightarrow> Inl e
      | Inr found \<Rightarrow>
          (case search_all db total_questions wrong_ratio weights cs of
             Inl e \<Rightarrow> Inl e
           | Inr rest \<Rightarrow> Inr (found @ rest)))"

text \<open>Step 3: nothing is searched when the user's misses carry no keyword.\<close>

definition keyword_search :: "database \<Rightarrow> int \<Rightarrow> rat \<Rightarrow> (pystr \<times> nat) list
    \<Rightarrow> exn + question list" where
  "keyword_search db total_questions wrong_ratio keyword_frequency =
     (if keyword_frequency = [] then Inr []
      else
        (let total_frequency = sum_list (map snd keyword_frequency);
             keyword_weights =
               map (\<lambda>(k, v). (k, of_nat v / of_nat total_frequency)) keyword_frequency
         in search_all db total_questions wrong_ratio
              (sort_key (\<lambda>(k, w). - w) keyword_weights) (map snd QUESTION_TYPE_MAPPING)))"

text \<open>
  Step 5, the loop over the shuffled categories. Its state: the ids chosen so far, the
  result, the number of questions still wanted and the random generator.
\<close>

fun fill_random :: "'r random \<Rightarrow> database \<Rightarrow> int \<Rightarrow> category list
    \<Rightarrow> pystr list \<times> question list \<times> int \<times> 'r
    \<Rightarrow> exn + (pystr list \<times> question list \<times> int \<times> 'r)" where
  "fill_random R db questions_per_category [] st = Inr st"
| "fill_random R db questions_per_category (c # categories) (selected_ids, result, remaining, g) =
     (if remaining \<le> 0 then Inr (selected_ids, result, remaining, g)
      else
        (case query_all db c of
           Inl e \<Rightarrow> Inl e
         | Inr qs \<Rightarrow>
             (let category_count = min questions_per_category remaining;
                  random_questions = filter (\<lambda>q. q_id q \<notin> set selected_ids) qs
              in if random_questions \<noteq> [] then
                   (case (if int (length random_questions) > category_count
                          then random_sample R g random_questions (nat category_count)
                          else (random_questions, g)) of
                      (selected, g') \<Rightarrow>
                        fill_random R db questions_per_category categories
                          (selected_ids @ map q_id selected, result @ selected,
                           remaining - int (length selected), g'))
                 else fill_random R db questions_per_category categories
                        (selected_ids, result, remaining, g))))"

text \<open>Step 7: the first question of each id, up to the wanted number of questions.\<close>

fun unique_loop :: "int \<Rightarrow> question list \<Rightarrow> pystr list \<Rightarrow> question list \<Rightarrow> question list" where
  "unique_loop total_questions [] unique_ids unique_questions = unique_questions"
| "unique_loop total_questions (q # qs) unique_ids unique_questions =
     (if q_id q \<notin> set unique_ids \<and> int (length unique_questions) < total_questions
      then unique_loop total_questions qs (q_id q # unique_ids) (unique_questions @ [q])
      else unique_loop total_questions qs unique_ids unique_questions)"

text \<open>The ids of a table, in the order of its rows.\<close>

definition table_ids :: "database \<Rightarrow> category \<Rightarrow> pystr list" where
  "table_ids db c = map q_id (rows db c)"

text \<open>The body of the handler's \<open>try\<close>.\<close>

definition personalized_body :: "'r random \<Rightarrow> 'r \<Rightarrow> database \<Rightarrow> pystr \<Rightarrow> rat \<Rightarrow> int
    \<Rightarrow> exn + question list" where
  "personalized_body R g db uid wrong_ratio total_questions =
     (case query_user db uid of
        Inl e \<Rightarrow> Inl e
      | Inr None \<Rightarrow> Inl (HTTPException 404)
      | Inr (Some u) \<Rightarrow>
          if broken db UserWrongAnswers then Inl SQLAlchemyError
          else
            (let wrong_answers = filter (\<lambda>w. wa_user_id w = uid) (user_wrong_answers db);
                 keyword_frequency = count_keywords wrong_answers
             in case keyword_search db total_questions wrong_ratio keyword_frequency of
                  Inl e \<Rightarrow> Inl e
                | Inr keyword_questions \<Rightarrow>
                    (let wrong_questions_count =
                           min (int (length keyword_questions)) (py_int (of_int total_questions * wrong_ratio));
                         remaining_count = total_questions - wrong_questions_count;
                         result = take (nat wrong_questions_count) keyword_questions;
                         selected_ids = map q_id result
                     in case (if remaining_count > 0 then
                                (case random_shuffle R g (map snd QUESTION_TYPE_MAPPING) of
                                   (categories, g') \<Rightarrow>
                                     fill_random R db
                                       (max 1 (remaining_count div int (length categories)))
                                       categories (selected_ids, result, remaining_count, g'))
                              else Inr (selected_ids, result, remaining_count, g)) of
                          Inl e \<Rightarrow> Inl e
                        | Inr (ids, filled, remaining, g') \<Rightarrow>
                            Inr (unique_loop total_questions (fst (random_shuffle R g' filled)) [] []))))"

text \<open>
  \<open>GET /api/users/{user_id}/personalized-test\<close>. The bounds of the two query parameters
  are checked before the handler runs (status 422); every exception of the body, the 404
  for an unknown user included, is raised again with status 500.
\<close>

definition create_personalized_test :: "'r random \<Rightarrow> 'r \<Rightarrow> database \<Rightarrow> pystr \<Rightarrow> rat \<Rightarrow> int
    \<Rightarrow> exn + question list" where
  "create_personalized_test R g db uid wrong_ratio total_questions =
     (if \<not> (0 \<le> wrong_ratio \<and> wrong_ratio \<le> 1) \<or> \<not> (5 \<le> total_questions \<and> total_questions \<le> 50)
      then Inl (HTTPException 422)
      else
        (case personalized_body R g db uid wrong_ratio total_questions of
           Inl e \<Rightarrow> Inl (HTTPException 500)
         | Inr unique_questions \<Rightarrow> Inr unique_questions))"

section \<open>Questions for concrete inputs\<close>

text \<open>
  The questions at which the theorems below are tried: one that asks for an English
  abbreviation and offers two options, one that stores the number of its option, one
  whose options are signs, and three whose stored answers are lists.
\<close>

definition tcp_question :: question_data where
  "tcp_question =
     \<lparr>qd_question = abbreviation_spaced, qd_answer = str ''TCP'',
      qd_example = Some (str ''1. TCP'' @ [10] @ str ''2. UDP'')\<rparr>"

definition snmp_question :: question_data where
  "snmp_question =
     \<lparr>qd_question = [], qd_answer = str ''2'',
      qd_example = Some (str ''1. TCP'' @ [10] @ str ''2. SNMP'')\<rparr>"

definition sign_question :: question_data where
  "sign_question =
     \<lparr>qd_question = [], qd_answer = str ''2'',
      qd_example = Some (str ''1. +'' @ [10] @ str ''2. -'')\<rparr>"

definition abc_question :: question_data where
  "abc_question = \<lparr>qd_question = [], qd_answer = str ''A, B, C'', qd_example = None\<rparr>"

definition ab_question :: question_data where
  "ab_question = \<lparr>qd_question = [], qd_answer = str ''A, B'', qd_example = None\<rparr>"

definition ab_cd_question :: question_data where
  "ab_cd_question =
     \<lparr>qd_question = abbreviation_spaced, qd_answer = str ''AB, CD'', qd_example = None\<rparr>"

text \<open>
  A store with two questions, and the dict that a handler makes of a row for grading.
\<close>

definition list_row :: question where
  "list_row =
     \<lparr>q_id = str ''os-1'', q_question = [], q_answer = str ''A, B, C'', q_example = None,
      q_difficulty = 1, q_keywords = None\<rparr>"

definition tcp_row :: question where
  "tcp_row =
     \<lparr>q_id = str ''network-1'', q_question = abbreviation_spaced, q_answer = str ''TCP'',
      q_example = None, q_difficulty = 1, q_keywords = None\<rparr>"

definition two_rows :: database where
  "two_rows =
     \<lparr>rows = (\<lambda>c. if c = OS then [list_row] else if c = Network then [tcp_row] else []),
      users = [], user_wrong_answers = [], broken = (\<lambda>t. False),
      sql_like = (\<lambda>pattern v. False)\<rparr>"

definition row_data :: "question \<Rightarrow> question_data" where
  "row_data q = \<lparr>qd_question = q_question q, qd_answer = q_answer q, qd_example = q_example q\<rparr>"

text \<open>
  The store with a user, and a submission of this user with two wrong answers to the same
  question.
\<close>

definition one_user :: database where
  "one_user =
     two_rows\<lparr>users := [\<lparr>u_id = str ''u1'', u_username = str ''kim'',
                          u_email = str ''kim@example.org''\<rparr>]\<rparr>"

definition twice_wrong :: test_submission where
  "twice_wrong =
     \<lparr>ts_answers =
        [\<lparr>ad_question_id = Some (str ''os-1''), ad_answer = Some (str ''x'')\<rparr>,
         \<lparr>ad_question_id = Some (str ''os-1''), ad_answer = Some (str ''y'')\<rparr>],
      ts_user_id = Some (str ''u1'')\<rparr>"

text \<open>
  A store that cannot be reached, and a question bank with six questions in each of the
  nine tables, their ids made of the category name and a digit.
\<close>

definition store_down :: database where
  "store_down = one_user\<lparr>broken := (\<lambda>t. True)\<rparr>"

definition category_name :: "category \<Rightarrow> pystr" where
  "category_name c =
     (case c of OS \<Rightarrow> str ''os'' | DB \<Rightarrow> str ''db'' | Network \<Rightarrow> str ''network''
      | Algorithm \<Rightarrow> str ''algorithm'' | Program \<Rightarrow> str ''program''
      | AppTest \<Rightarrow> str ''app_test'' | AppDefect \<Rightarrow> str ''app_defect''
      | BaseSQL \<Rightarrow> str ''base_sql'' | HardSQL \<Rightarrow> str ''hard_sql'')"

definition bank_row :: "category \<Rightarrow> nat \<Rightarrow> question" where
  "bank_row c i =
     \<lparr>q_id = category_name c @ [45, 48 + i], q_question = [], q_answer = str ''x'',
      q_example = None, q_difficulty = 1, q_keywords = None\<rparr>"

definition bank :: database where
  "bank =
     \<lparr>rows = (\<lambda>c. map (bank_row c) [1..<7]),
      users = [\<lparr>u_id = str ''u1'', u_username = str ''kim'', u_email = str ''kim@example.org''\<rparr>],
      user_wrong_answers = [], broken = (\<lambda>t. False), sql_like = (\<lambda>pattern v. False)\<rparr>"

section \<open>The stages of the cascade\<close>

text \<open>
  One lemma for each way through \<open>evaluate_answer\<close>: the verdict, and what has to hold
  for the cascade to get there.
\<close>

lemma ev_empty: "evaluate_answer E [] qd adv = no_data_verdict"
  by (simp add: evaluate_answer_def)

lemma ev_exact:
  "user_answer \<noteq> [] \<Longrightarrow> strip user_answer = strip (qd_answer qd) \<Longrightarrow>
   evaluate_answer E user_answer qd adv = correct_verdict (strip (qd_answer qd)) None"
  by (simp add: evaluate_answer_def Let_def)

lemma ev_option:
  "user_answer \<noteq> [] \<Longrightarrow> strip user_answer \<noteq> strip (qd_answer qd) \<Longrightarrow>
   option_stage E (strip (qd_answer qd)) user_answer (qd_example qd) \<Longrightarrow>
   evaluate_answer E user_answer qd adv = correct_verdict (strip (qd_answer qd)) (qd_example qd)"
  by (simp add: evaluate_answer_def Let_def)

lemma ev_veto:
  "user_answer \<noteq> [] \<Longrightarrow> strip user_answer \<noteq> strip (qd_answer qd) \<Longrightarrow>
   \<not> option_stage E (strip (qd_answer qd)) user_answer (qd_example qd) \<Longrightarrow>
   format_veto (qd_question qd) (strip (qd_answer qd)) user_answer \<Longrightarrow>
   evaluate_answer E user_answer qd adv = veto_verdict (strip (qd_answer qd)) (qd_example qd)"
  by (simp add: evaluate_answer_def Let_def)

lemma ev_list:
  "user_answer \<noteq> [] \<Longrightarrow> strip user_answer \<noteq> strip (qd_answer qd) \<Longrightarrow>
   \<not> option_stage E (strip (qd_answer qd)) user_answer (qd_example qd) \<Longrightarrow>
   \<not> format_veto (qd_question qd) (strip (qd_answer qd)) user_answer \<Longrightarrow>
   list_stage E (strip (qd_answer qd)) user_answer \<Longrightarrow>
   evaluate_answer E user_answer qd adv
     = correct_verdict (strip (qd_answer qd)) (example_or_None (qd_example qd))"
  by (simp add: evaluate_answer_def Let_def)

lemma ev_fuzzy:
  "user_answer \<noteq> [] \<Longrightarrow> strip user_answer \<noteq> strip (qd_answer qd) \<Longrightarrow>
   \<not> option_stage E (strip (qd_answer qd)) user_answer (qd_example qd) \<Longrightarrow>
   \<not> format_veto (qd_question qd) (strip (qd_answer qd)) user_answer \<Longrightarrow>
   \<not> list_stage E (strip (qd_answer qd)) user_answer \<Longrightarrow>
   evaluate_answer E user_answer qd adv
     = (case (if adv then openai_reply E (qd_question qd) (qd_example qd) (strip (qd_answer qd)) user_answer
              else None) of
          Some r \<Rightarrow> advanced_verdict (strip (qd_answer qd)) (qd_example qd) r
        | None \<Rightarrow> simple_verdict E (strip (qd_answer qd)) (qd_example qd) user_answer)"
  by (simp add: evaluate_answer_def Let_def)

section \<open>Abbreviations and white space\<close>

text \<open>Trimming neither makes nor removes a pair of neighbouring capitals.\<close>

lemma has_abbreviation_iff:
  "has_abbreviation s \<longleftrightarrow> (\<exists>xs a b ys. s = xs @ a # b # ys \<and> upper_AZ a \<and> upper_AZ b)"
proof (induction s rule: has_abbreviation.induct)
  case (1 a b cs)
  show ?case
  proof
    assume "has_abbreviation (a # b # cs)"
    then consider "upper_AZ a \<and> upper_AZ b" | "has_abbreviation (b # cs)" by auto
    then show "\<exists>xs a' b' ys. a # b # cs = xs @ a' # b' # ys \<and> upper_AZ a' \<and> upper_AZ b'"
    proof cases
      case 1
      then show ?thesis by (intro exI[of _ "[]"]) auto
    next
      case 2
      with "1.IH" obtain xs a' b' ys where "b # cs = xs @ a' # b' # ys" "upper_AZ a'" "upper_AZ b'"
        by auto
      then have "a # b # cs = (a # xs) @ a' # b' # ys \<and> upper_AZ a' \<and> upper_AZ b'" by simp
      then show ?thesis by blast
    qed
  next
    assume "\<exists>xs a' b' ys. a # b # cs = xs @ a' # b' # ys \<and> upper_AZ a' \<and> upper_AZ b'"
    then obtain xs a' b' ys where e: "a # b # cs = xs @ a' # b' # ys" and u: "upper_AZ a'" "upper_AZ b'"
      by blast
    show "has_abbreviation (a # b # cs)"
    proof (cases xs)
      case Nil
      with e u show ?thesis by simp
    next
      case (Cons x xs')
      with e have "b # cs = xs' @ a' # b' # ys" by simp
      with u "1.IH" have "has_abbreviation (b # cs)" by blast
      then show ?thesis by simp
    qed
  qed
qed (auto simp: Cons_eq_append_conv)

lemma has_abbreviation_rev: "has_abbreviation (rev s) = has_abbreviation s"
proof -
  have "has_abbreviation t \<Longrightarrow> has_abbreviation (rev t)" for t
  proof -
    assume "has_abbreviation t"
    then obtain xs a b ys where "t = xs @ a # b # ys" "upper_AZ a" "upper_AZ b"
      unfolding has_abbreviation_iff by blast
    then have "rev t = rev ys @ b # a # rev xs \<and> upper_AZ b \<and> upper_AZ a" by simp
    then show ?thesis unfolding has_abbreviation_iff by blast
  qed
  from this[of s] this[of "rev s"] show ?thesis by auto
qed

lemma upper_not_space: "upper_AZ c \<Longrightarrow> \<not> isspace c"
  by (auto simp: upper_AZ_def isspace_def)

lemma has_abbreviation_dropWhile: "has_abbreviation (dropWhile isspace s) = has_abbreviation s"
proof (induction s)
  case Nil
  then show ?case by simp
next
  case (Cons c s)
  show ?case
  proof (cases "isspace c")
    case True
    then have "\<not> upper_AZ c" using upper_not_space by blast
    then have "has_abbreviation (c # s) = has_abbreviation s" by (cases s) auto
    with True Cons show ?thesis by simp
  next
    case False
    then show ?thesis by simp
  qed
qed

lemma has_abbreviation_strip: "has_abbreviation (strip s) = has_abbreviation s"
  by (simp add: strip_def has_abbreviation_rev has_abbreviation_dropWhile)

section \<open>The loop over the options\<close>

text \<open>
  The loop returns at the first line that fits the stored answer and the user's answer, so
  it returns when some line does.
\<close>

lemma option_accepts_line:
  "line \<in> set options \<Longrightarrow> match_option E (strip line) = Some (n, text) \<Longrightarrow>
   correct = n \<or> preprocess_text E correct = preprocess_text E (strip text) \<Longrightarrow>
   strip user_answer = n \<or> preprocess_text E user_answer = preprocess_text E (strip text) \<Longrightarrow>
   option_accepts E correct user_answer options"
proof (induction options)
  case Nil
  then show ?case by simp
next
  case (Cons option options)
  show ?case
  proof (cases "line = option")
    case True
    with Cons.prems show ?thesis by (auto simp: Let_def)
  next
    case False
    with Cons have "option_accepts E correct user_answer options" by simp
    then show ?thesis by (auto simp: Let_def split: option.splits)
  qed
qed



section \<open>Evaluation at concrete inputs\<close>

text \<open>The definitions that the simplifier unfolds to run the program on a concrete input.\<close>

lemmas string_eval = str_def strip_def isspace_def punctuation_def upper_AZ_def comma_def

lemmas offline_eval = offline_def ascii_lower_def ascii_digit_def ratio_def
  find_longest_match_def longer_match_def upt_rec[of _ "numeral _"] upt_rec[of _ "Suc _"]

lemmas stage_eval = preprocess_text_def option_stage_def example_or_None_def match_option_def
  format_veto_def abbreviation_spaced_def abbreviation_joined_def list_stage_def list_items_def
  simple_verdict_def

lemma verdict_simps:
  "is_correct no_data_verdict = False" "score no_data_verdict = 0"
  "is_correct (correct_verdict c ex) = True" "score (correct_verdict c ex) = 1"
  "is_correct (veto_verdict c ex) = False" "score (veto_verdict c ex) = 1 / 10"
  by (simp_all add: no_data_verdict_def correct_verdict_def veto_verdict_def)

section \<open>Grading: the exact match\<close>

text \<open>
  Claim C2 says that every user answer equal to the stored answer after trimming and
  case-insensitive normalisation is graded correct with score 1.0. The first stage
  compares the trimmed strings as they are, case included, and only after the guard
  against an empty answer. What holds: a user answer that is not empty and equals the
  stored answer after trimming is correct with score 1.
\<close>

theorem exact_match_is_correct:
  assumes "user_answer \<noteq> []" and "strip user_answer = strip (qd_answer qd)"
  shows "is_correct (evaluate_answer E user_answer qd use_advanced)
         \<and> score (evaluate_answer E user_answer qd use_advanced) = 1"
  using assms by (simp add: ev_exact verdict_simps)

text \<open>The theorem at the answer \<open>" tcp "\<close> to a question whose stored answer is \<open>"tcp"\<close>.\<close>

theorem exact_match_is_correct_witness:
  "str '' tcp '' \<noteq> [] \<and> strip (str '' tcp '') = strip (qd_answer \<lparr>qd_question = abbreviation_spaced, qd_answer = str ''tcp'', qd_example = None\<rparr>)
   \<and> is_correct (evaluate_answer offline (str '' tcp '')
        \<lparr>qd_question = abbreviation_spaced, qd_answer = str ''tcp'', qd_example = None\<rparr> True)
   \<and> score (evaluate_answer offline (str '' tcp '')
        \<lparr>qd_question = abbreviation_spaced, qd_answer = str ''tcp'', qd_example = None\<rparr> True) = 1"
proof -
  have h1: "str '' tcp '' \<noteq> []" by (simp add: str_def)
  have h2: "strip (str '' tcp '')
      = strip (qd_answer \<lparr>qd_question = abbreviation_spaced, qd_answer = str ''tcp'', qd_example = None\<rparr>)"
    by (simp add: string_eval)
  from exact_match_is_correct[OF h1 h2] h1 h2 show ?thesis by simp
qed

text \<open>
  Claim C2 fails at three inputs, each with a user answer equal to the stored answer
  after trimming and lower-casing. The answer \<open>"tcp"\<close> to a question that asks for an
  English abbreviation and stores \<open>"TCP"\<close> is vetoed with score 0.1. Without the remote
  service, the answer \<open>"a a"\<close> for the stored \<open>"A A"\<close> reaches the lexical stage, where
  the one common word is half of the two words of the stored answer: the score is 0.7.
  The empty answer for a stored answer that is one space is stopped by the guard.
\<close>

theorem case_insensitive_match_counterexample:
  "ascii_lower (strip (str ''tcp'')) = ascii_lower (strip (str ''TCP''))
   \<and> \<not> is_correct (evaluate_answer offline (str ''tcp'')
        \<lparr>qd_question = abbreviation_spaced, qd_answer = str ''TCP'', qd_example = None\<rparr> True)
   \<and> score (evaluate_answer offline (str ''tcp'')
        \<lparr>qd_question = abbreviation_spaced, qd_answer = str ''TCP'', qd_example = None\<rparr> True) = 1 / 10
   \<and> ascii_lower (strip (str ''a a'')) = ascii_lower (strip (str ''A A''))
   \<and> score (evaluate_answer offline (str ''a a'')
        \<lparr>qd_question = [], qd_answer = str ''A A'', qd_example = None\<rparr> True) = 7 / 10
   \<and> strip [] = strip (str '' '')
   \<and> \<not> is_correct (evaluate_answer offline []
        \<lparr>qd_question = [], qd_answer = str '' '', qd_example = None\<rparr> True)"
proof -
  have a: "ascii_lower (strip (str ''tcp'')) = ascii_lower (strip (str ''TCP''))"
    by (simp add: string_eval ascii_lower_def)
  have b: "evaluate_answer offline (str ''tcp'')
        \<lparr>qd_question = abbreviation_spaced, qd_answer = str ''TCP'', qd_example = None\<rparr> True
      = veto_verdict (str ''TCP'') None"
    by (simp add: evaluate_answer_def Let_def string_eval stage_eval)
  have c: "ascii_lower (strip (str ''a a'')) = ascii_lower (strip (str ''A A''))"
    by (simp add: string_eval ascii_lower_def)
  have d: "score (evaluate_answer offline (str ''a a'')
        \<lparr>qd_question = [], qd_answer = str ''A A'', qd_example = None\<rparr> True) = 7 / 10"
    by (simp add: evaluate_answer_def Let_def string_eval stage_eval offline_eval)
  have e: "evaluate_answer offline []
        \<lparr>qd_question = [], qd_answer = str '' '', qd_example = None\<rparr> True
      = no_data_verdict"
    by (simp add: ev_empty)
  have f: "strip [] = strip (str '' '')" by (simp add: string_eval)
  show ?thesis
    unfolding b e using a c d f by (simp add: verdict_simps)
qed

section \<open>Grading: the format veto\<close>

text \<open>
  Claim C4 says that whenever the question asks for an English abbreviation, the stored
  answer has a token of two or more capitals and the user's answer has none, the verdict
  is incorrect with score exactly 0.1, whatever the later stages would say. The veto is
  the third stage: the guard against an empty answer and the option stage come first.
  What holds: when, besides, the user's answer is not empty and the option stage does not
  accept it, the verdict is the veto's, which does not depend on the remote service or
  on the similarity.
\<close>

theorem format_veto_rejects:
  assumes "user_answer \<noteq> []"
    and "contains abbreviation_spaced (qd_question qd)"
    and "has_abbreviation (qd_answer qd)"
    and "\<not> has_abbreviation user_answer"
    and "\<not> option_stage E (strip (qd_answer qd)) user_answer (qd_example qd)"
  shows "evaluate_answer E user_answer qd use_advanced
           = veto_verdict (strip (qd_answer qd)) (qd_example qd)
         \<and> \<not> is_correct (evaluate_answer E user_answer qd use_advanced)
         \<and> score (evaluate_answer E user_answer qd use_advanced) = 1 / 10"
proof -
  have "has_abbreviation (strip (qd_answer qd))" "\<not> has_abbreviation (strip user_answer)"
    using assms(3,4) by (simp_all add: has_abbreviation_strip)
  then have differ: "strip user_answer \<noteq> strip (qd_answer qd)" by auto
  have veto: "format_veto (qd_question qd) (strip (qd_answer qd)) user_answer"
    using assms(2,3,4) by (simp add: format_veto_def has_abbreviation_strip)
  have "evaluate_answer E user_answer qd use_advanced
          = veto_verdict (strip (qd_answer qd)) (qd_example qd)"
    using assms(1) differ assms(5) veto by (rule ev_veto)
  then show ?thesis by (simp add: verdict_simps)
qed

text \<open>
  The theorem at the answer \<open>"tcp ip"\<close> to the question that stores \<open>"TCP"\<close>.
\<close>

theorem format_veto_rejects_witness:
  "str ''tcp ip'' \<noteq> [] \<and> contains abbreviation_spaced (qd_question tcp_question)
   \<and> has_abbreviation (qd_answer tcp_question) \<and> \<not> has_abbreviation (str ''tcp ip'')
   \<and> \<not> option_stage offline (strip (qd_answer tcp_question)) (str ''tcp ip'') (qd_example tcp_question)
   \<and> \<not> is_correct (evaluate_answer offline (str ''tcp ip'') tcp_question True)
   \<and> score (evaluate_answer offline (str ''tcp ip'') tcp_question True) = 1 / 10"
proof -
  have h1: "str ''tcp ip'' \<noteq> []" by (simp add: str_def)
  have h2: "contains abbreviation_spaced (qd_question tcp_question)"
    by (simp add: tcp_question_def abbreviation_spaced_def)
  have h3: "has_abbreviation (qd_answer tcp_question)"
    by (simp add: tcp_question_def string_eval)
  have h4: "\<not> has_abbreviation (str ''tcp ip'')" by (simp add: string_eval)
  have h5: "\<not> option_stage offline (strip (qd_answer tcp_question)) (str ''tcp ip'')
      (qd_example tcp_question)"
    by (simp add: tcp_question_def string_eval stage_eval offline_eval)
  from format_veto_rejects[OF h1 h2 h3 h4 h5, of True] h1 h2 h3 h4 h5 show ?thesis by blast
qed

text \<open>
  Claim C4 fails at two answers to that question, neither with a token of capitals: the
  empty answer gets score 0 from the guard, and the answer \<open>"1"\<close>, the number of the
  option \<open>TCP\<close>, is accepted by the option stage with score 1.
\<close>

theorem format_veto_counterexample:
  "contains abbreviation_spaced (qd_question tcp_question)
   \<and> has_abbreviation (qd_answer tcp_question)
   \<and> \<not> has_abbreviation []
   \<and> score (evaluate_answer offline [] tcp_question True) = 0
   \<and> \<not> has_abbreviation (str ''1'')
   \<and> is_correct (evaluate_answer offline (str ''1'') tcp_question True)
   \<and> score (evaluate_answer offline (str ''1'') tcp_question True) = 1"
proof -
  have a: "evaluate_answer offline [] tcp_question True = no_data_verdict"
    by (simp add: ev_empty)
  have b: "evaluate_answer offline (str ''1'') tcp_question True
      = correct_verdict (strip (qd_answer tcp_question)) (qd_example tcp_question)"
  proof (rule ev_option)
    show "str ''1'' \<noteq> []" by (simp add: str_def)
    show "strip (str ''1'') \<noteq> strip (qd_answer tcp_question)"
      by (simp add: tcp_question_def string_eval)
    show "option_stage offline (strip (qd_answer tcp_question)) (str ''1'') (qd_example tcp_question)"
      by (simp add: tcp_question_def string_eval stage_eval offline_eval)
  qed
  have c: "contains abbreviation_spaced (qd_question tcp_question)"
    by (simp add: tcp_question_def abbreviation_spaced_def)
  have d: "has_abbreviation (qd_answer tcp_question)"
    by (simp add: tcp_question_def string_eval)
  have e: "\<not> has_abbreviation (str ''1'')" by (simp add: string_eval)
  show ?thesis unfolding a b using c d e by (simp add: verdict_simps)
qed

section \<open>Grading: the enumerated options\<close>

lemma match_option_Nil: "match_option E [] = None"
  by (simp add: match_option_def)

text \<open>
  Claim C5 says that when a line of the example block reads as number and text, and the
  stored answer is that number or, after normalisation, that text, then the user's answer
  is accepted both when it is the number and when it is the text after normalisation. The
  guard against an empty answer comes before the option stage, and an option whose text
  is punctuation normalises to the empty string, as the empty answer does. What holds: a
  user answer that is not empty and is the number, or the text after normalisation, is
  correct with score 1.
\<close>

theorem option_match_accepts:
  assumes "user_answer \<noteq> []"
    and "qd_example qd = Some e"
    and "line \<in> set (split_on (\<lambda>c. c = 10) [] e)"
    and "match_option E (strip line) = Some (n, text)"
    and "strip (qd_answer qd) = n
         \<or> preprocess_text E (strip (qd_answer qd)) = preprocess_text E (strip text)"
    and "strip user_answer = n \<or> preprocess_text E user_answer = preprocess_text E (strip text)"
  shows "is_correct (evaluate_answer E user_answer qd use_advanced)
         \<and> score (evaluate_answer E user_answer qd use_advanced) = 1"
proof (cases "strip user_answer = strip (qd_answer qd)")
  case True
  with assms(1) show ?thesis by (simp add: ev_exact verdict_simps)
next
  case False
  have "e \<noteq> []"
  proof
    assume "e = []"
    with assms(3) have "line = []" by simp
    with assms(4) show False by (simp add: strip_def match_option_Nil)
  qed
  then have "example_or_None (qd_example qd) = Some e"
    using assms(2) by (simp add: example_or_None_def)
  moreover have "option_accepts E (strip (qd_answer qd)) user_answer (split_on (\<lambda>c. c = 10) [] e)"
    using assms(3,4,5,6) by (rule option_accepts_line)
  ultimately have "option_stage E (strip (qd_answer qd)) user_answer (qd_example qd)"
    by (simp add: option_stage_def)
  with assms(1) False show ?thesis by (simp add: ev_option verdict_simps)
qed

text \<open>
  The theorem at the answer \<open>"snmp"\<close> to the question whose option 2 is \<open>SNMP\<close> and
  whose stored answer is \<open>"2"\<close>.
\<close>

theorem option_match_accepts_witness:
  "str ''snmp'' \<noteq> []
   \<and> qd_example snmp_question = Some (str ''1. TCP'' @ [10] @ str ''2. SNMP'')
   \<and> str ''2. SNMP'' \<in> set (split_on (\<lambda>c. c = 10) [] (str ''1. TCP'' @ [10] @ str ''2. SNMP''))
   \<and> match_option offline (strip (str ''2. SNMP'')) = Some (str ''2'', str ''SNMP'')
   \<and> strip (qd_answer snmp_question) = str ''2''
   \<and> preprocess_text offline (str ''snmp'') = preprocess_text offline (strip (str ''SNMP''))
   \<and> is_correct (evaluate_answer offline (str ''snmp'') snmp_question True)
   \<and> score (evaluate_answer offline (str ''snmp'') snmp_question True) = 1"
proof -
  have h1: "str ''snmp'' \<noteq> []" by (simp add: str_def)
  have h2: "qd_example snmp_question = Some (str ''1. TCP'' @ [10] @ str ''2. SNMP'')"
    by (simp add: snmp_question_def)
  have h3: "str ''2. SNMP'' \<in> set (split_on (\<lambda>c. c = 10) [] (str ''1. TCP'' @ [10] @ str ''2. SNMP''))"
    by (simp add: str_def)
  have h4: "match_option offline (strip (str ''2. SNMP'')) = Some (str ''2'', str ''SNMP'')"
    by (simp add: string_eval stage_eval offline_eval)
  have h5: "strip (qd_answer snmp_question) = str ''2''"
    by (simp add: snmp_question_def string_eval)
  have h6: "preprocess_text offline (str ''snmp'') = preprocess_text offline (strip (str ''SNMP''))"
    by (simp add: string_eval stage_eval offline_eval)
  from option_match_accepts[OF h1 h2 h3 h4 disjI1[OF h5] disjI2[OF h6], of True] h1 h2 h3 h4 h5 h6
  show ?thesis by blast
qed

text \<open>
  Claim C5 fails at the empty answer to a question whose option 2 is the minus sign and
  whose stored answer is \<open>"2"\<close>: the empty answer equals the option's text after
  normalisation, and the guard grades it incorrect.
\<close>

theorem option_match_counterexample:
  "qd_example sign_question = Some (str ''1. +'' @ [10] @ str ''2. -'')
   \<and> str ''2. -'' \<in> set (split_on (\<lambda>c. c = 10) [] (str ''1. +'' @ [10] @ str ''2. -''))
   \<and> match_option offline (strip (str ''2. -'')) = Some (str ''2'', str ''-'')
   \<and> strip (qd_answer sign_question) = str ''2''
   \<and> preprocess_text offline [] = preprocess_text offline (strip (str ''-''))
   \<and> \<not> is_correct (evaluate_answer offline [] sign_question True)"
proof -
  have "evaluate_answer offline [] sign_question True = no_data_verdict"
    by (simp add: ev_empty)
  moreover have "qd_example sign_question = Some (str ''1. +'' @ [10] @ str ''2. -'')"
    by (simp add: sign_question_def)
  moreover have "str ''2. -'' \<in> set (split_on (\<lambda>c. c = 10) [] (str ''1. +'' @ [10] @ str ''2. -''))"
    by (simp add: str_def)
  moreover have "match_option offline (strip (str ''2. -'')) = Some (str ''2'', str ''-'')"
    by (simp add: string_eval stage_eval offline_eval)
  moreover have "strip (qd_answer sign_question) = str ''2''"
    by (simp add: sign_question_def string_eval)
  moreover have "preprocess_text offline [] = preprocess_text offline (strip (str ''-''))"
    by (simp add: string_eval stage_eval offline_eval)
  ultimately show ?thesis by (simp add: verdict_simps)
qed

section \<open>Grading: the ordered list\<close>

lemma in_set_dropWhile: "x \<in> set xs \<Longrightarrow> \<not> P x \<Longrightarrow> x \<in> set (dropWhile P xs)"
  by (induction xs) auto

lemma comma_not_space: "comma c \<Longrightarrow> \<not> isspace c"
  by (auto simp: comma_def isspace_def)

lemma comma_strip: "(\<exists>c \<in> set (strip s). comma c) \<longleftrightarrow> (\<exists>c \<in> set s. comma c)"
proof
  assume "\<exists>c \<in> set (strip s). comma c"
  then obtain c where "c \<in> set (strip s)" "comma c" by blast
  then have "c \<in> set s" by (auto simp: strip_def dest!: set_dropWhileD)
  with \<open>comma c\<close> show "\<exists>c \<in> set s. comma c" by blast
next
  assume "\<exists>c \<in> set s. comma c"
  then obtain c where c: "c \<in> set s" "comma c" by blast
  then have "c \<in> set (rev (dropWhile isspace s))"
    by (simp add: in_set_dropWhile comma_not_space)
  then have "c \<in> set (dropWhile isspace (rev (dropWhile isspace s)))"
    using c(2) by (simp add: in_set_dropWhile comma_not_space)
  with c(2) show "\<exists>c \<in> set (strip s). comma c" by (auto simp: strip_def)
qed

lemma list_stage_iff:
  "list_stage E correct user_answer \<longleftrightarrow>
     (\<exists>c \<in> set correct. comma c)
     \<and> list_all2 (\<lambda>c u. preprocess_text E c = preprocess_text E u)
          (list_items correct) (list_items user_answer)"
  by (auto simp: list_stage_def list_all2_iff list_all_iff)

text \<open>
  Claim C3 says that, for a stored answer with comma-separated items, a user answer with
  the same items in the same order is correct with score 1.0, and one with the items in
  another order, or with fewer items, is incorrect. The list stage only accepts: it comes
  after the format veto, and an answer it does not accept goes on to the remote grading
  and the lexical fallback, which decide. What holds, for a user answer that is not empty:
  when the items agree in number and, position by position, after normalisation, and the
  veto does not fire, the answer is correct with score 1; when they do not, and neither
  the exact match nor the option stage accepts and the veto does not fire, the verdict is
  the one of the remote service or, without its reply, of the lexical fallback.
\<close>

theorem ordered_list_match:
  assumes "user_answer \<noteq> []" and "\<exists>c \<in> set (qd_answer qd). comma c"
  shows "(list_all2 (\<lambda>c u. preprocess_text E c = preprocess_text E u)
            (list_items (strip (qd_answer qd))) (list_items user_answer)
          \<and> \<not> format_veto (qd_question qd) (strip (qd_answer qd)) user_answer
          \<longrightarrow> is_correct (evaluate_answer E user_answer qd use_advanced)
              \<and> score (evaluate_answer E user_answer qd use_advanced) = 1)
       \<and> (\<not> list_all2 (\<lambda>c u. preprocess_text E c = preprocess_text E u)
              (list_items (strip (qd_answer qd))) (list_items user_answer)
          \<and> strip user_answer \<noteq> strip (qd_answer qd)
          \<and> \<not> option_stage E (strip (qd_answer qd)) user_answer (qd_example qd)
          \<and> \<not> format_veto (qd_question qd) (strip (qd_answer qd)) user_answer
          \<longrightarrow> evaluate_answer E user_answer qd use_advanced
                = (case (if use_advanced
                         then openai_reply E (qd_question qd) (qd_example qd)
                                (strip (qd_answer qd)) user_answer
                         else None) of
                     Some r \<Rightarrow> advanced_verdict (strip (qd_answer qd)) (qd_example qd) r
                   | None \<Rightarrow> simple_verdict E (strip (qd_answer qd)) (qd_example qd) user_answer))"
proof (intro conjI impI)
  assume a: "list_all2 (\<lambda>c u. preprocess_text E c = preprocess_text E u)
            (list_items (strip (qd_answer qd))) (list_items user_answer)
          \<and> \<not> format_veto (qd_question qd) (strip (qd_answer qd)) user_answer"
  then have l: "list_stage E (strip (qd_answer qd)) user_answer"
    using assms(2) by (simp add: list_stage_iff comma_strip)
  let ?v = "evaluate_answer E user_answer qd use_advanced"
  consider "strip user_answer = strip (qd_answer qd)"
    | "strip user_answer \<noteq> strip (qd_answer qd)"
      "option_stage E (strip (qd_answer qd)) user_answer (qd_example qd)"
    | "strip user_answer \<noteq> strip (qd_answer qd)"
      "\<not> option_stage E (strip (qd_answer qd)) user_answer (qd_example qd)"
    by blast
  then have "is_correct ?v \<and> score ?v = 1"
  proof cases
    case 1
    with assms(1) show ?thesis by (simp add: ev_exact verdict_simps)
  next
    case 2
    with assms(1) show ?thesis by (simp add: ev_option verdict_simps)
  next
    case 3
    with assms(1) a l show ?thesis by (simp add: ev_list verdict_simps)
  qed
  then show "is_correct ?v" and "score ?v = 1" by simp_all
next
  assume b: "\<not> list_all2 (\<lambda>c u. preprocess_text E c = preprocess_text E u)
              (list_items (strip (qd_answer qd))) (list_items user_answer)
          \<and> strip user_answer \<noteq> strip (qd_answer qd)
          \<and> \<not> option_stage E (strip (qd_answer qd)) user_answer (qd_example qd)
          \<and> \<not> format_veto (qd_question qd) (strip (qd_answer qd)) user_answer"
  then have "\<not> list_stage E (strip (qd_answer qd)) user_answer"
    by (simp add: list_stage_iff)
  with assms(1) b show "evaluate_answer E user_answer qd use_advanced
                = (case (if use_advanced
                         then openai_reply E (qd_question qd) (qd_example qd)
                                (strip (qd_answer qd)) user_answer
                         else None) of
                     Some r \<Rightarrow> advanced_verdict (strip (qd_answer qd)) (qd_example qd) r
                   | None \<Rightarrow> simple_verdict E (strip (qd_answer qd)) (qd_example qd) user_answer)"
    by (simp add: ev_fuzzy)
qed

text \<open>
  The theorem at two answers to the question that stores \<open>"A, B, C"\<close>: \<open>"a,b,c"\<close> for
  the first part and \<open>"C, B, A"\<close> for the second.
\<close>

theorem ordered_list_match_witness:
  "str ''a,b,c'' \<noteq> [] \<and> (\<exists>c \<in> set (qd_answer abc_question). comma c)
   \<and> list_all2 (\<lambda>c u. preprocess_text offline c = preprocess_text offline u)
        (list_items (strip (qd_answer abc_question))) (list_items (str ''a,b,c''))
   \<and> \<not> format_veto (qd_question abc_question) (strip (qd_answer abc_question)) (str ''a,b,c'')
   \<and> is_correct (evaluate_answer offline (str ''a,b,c'') abc_question True)
   \<and> score (evaluate_answer offline (str ''a,b,c'') abc_question True) = 1
   \<and> str ''C, B, A'' \<noteq> []
   \<and> \<not> list_all2 (\<lambda>c u. preprocess_text offline c = preprocess_text offline u)
        (list_items (strip (qd_answer abc_question))) (list_items (str ''C, B, A''))
   \<and> strip (str ''C, B, A'') \<noteq> strip (qd_answer abc_question)
   \<and> \<not> option_stage offline (strip (qd_answer abc_question)) (str ''C, B, A'') (qd_example abc_question)
   \<and> \<not> format_veto (qd_question abc_question) (strip (qd_answer abc_question)) (str ''C, B, A'')
   \<and> evaluate_answer offline (str ''C, B, A'') abc_question True
       = simple_verdict offline (str ''A, B, C'') None (str ''C, B, A'')"
proof -
  have h1: "str ''a,b,c'' \<noteq> []" by (simp add: str_def)
  have h2: "\<exists>c \<in> set (qd_answer abc_question). comma c"
    by (simp add: abc_question_def string_eval)
  have h3: "list_all2 (\<lambda>c u. preprocess_text offline c = preprocess_text offline u)
        (list_items (strip (qd_answer abc_question))) (list_items (str ''a,b,c''))"
    by (simp add: abc_question_def list_items_def string_eval stage_eval offline_eval)
  have h4: "\<not> format_veto (qd_question abc_question) (strip (qd_answer abc_question)) (str ''a,b,c'')"
    by (simp add: abc_question_def format_veto_def abbreviation_spaced_def abbreviation_joined_def)
  have g1: "str ''C, B, A'' \<noteq> []" by (simp add: str_def)
  have g3: "\<not> list_all2 (\<lambda>c u. preprocess_text offline c = preprocess_text offline u)
        (list_items (strip (qd_answer abc_question))) (list_items (str ''C, B, A''))"
    by (simp add: abc_question_def list_items_def string_eval stage_eval offline_eval)
  have g4: "strip (str ''C, B, A'') \<noteq> strip (qd_answer abc_question)"
    by (simp add: abc_question_def string_eval)
  have g5: "\<not> option_stage offline (strip (qd_answer abc_question)) (str ''C, B, A'')
      (qd_example abc_question)"
    by (simp add: abc_question_def option_stage_def example_or_None_def)
  have g6: "\<not> format_veto (qd_question abc_question) (strip (qd_answer abc_question)) (str ''C, B, A'')"
    by (simp add: abc_question_def format_veto_def abbreviation_spaced_def abbreviation_joined_def)
  have s: "strip (qd_answer abc_question) = str ''A, B, C''" "qd_example abc_question = None"
    "openai_reply offline q ex c u = None" for q ex c u
    by (simp_all add: abc_question_def string_eval offline_def)
  from ordered_list_match[OF h1 h2, of offline True] h3 h4
  have c1: "is_correct (evaluate_answer offline (str ''a,b,c'') abc_question True)
      \<and> score (evaluate_answer offline (str ''a,b,c'') abc_question True) = 1"
    by blast
  from ordered_list_match[OF g1 h2, of offline True] g3 g4 g5 g6
  have c2: "evaluate_answer offline (str ''C, B, A'') abc_question True
      = simple_verdict offline (str ''A, B, C'') None (str ''C, B, A'')"
    by (simp add: s)
  from h1 h2 h3 h4 c1 g1 g3 g4 g5 g6 c2 show ?thesis by blast
qed

text \<open>
  Claim C3 fails in each of its three parts. The answer \<open>"ab, cd"\<close> has the items of
  the stored \<open>"AB, CD"\<close> in their order, and the veto rejects it, the question asking for
  an English abbreviation. Without the remote service, the answer \<open>"B, A, C"\<close> for the
  stored \<open>"A, B, C"\<close>, the same items in another order, is graded correct by the
  lexical fallback (all three words are there, and the similarity is 0.6: the score is
  0.84), and so is the answer \<open>"A B"\<close> for the stored \<open>"A, B"\<close>, one item for
  two (score 1).
\<close>

theorem ordered_list_counterexample:
  "list_all2 (\<lambda>c u. preprocess_text offline c = preprocess_text offline u)
        (list_items (strip (qd_answer ab_cd_question))) (list_items (str ''ab, cd''))
   \<and> \<not> is_correct (evaluate_answer offline (str ''ab, cd'') ab_cd_question True)
   \<and> mset (list_items (str ''B, A, C'')) = mset (list_items (strip (qd_answer abc_question)))
   \<and> list_items (str ''B, A, C'') \<noteq> list_items (strip (qd_answer abc_question))
   \<and> is_correct (evaluate_answer offline (str ''B, A, C'') abc_question True)
   \<and> length (list_items (str ''A B'')) < length (list_items (strip (qd_answer ab_question)))
   \<and> is_correct (evaluate_answer offline (str ''A B'') ab_question True)"
proof -
  have a: "list_all2 (\<lambda>c u. preprocess_text offline c = preprocess_text offline u)
        (list_items (strip (qd_answer ab_cd_question))) (list_items (str ''ab, cd''))"
    by (simp add: ab_cd_question_def list_items_def string_eval stage_eval offline_eval)
  have b: "evaluate_answer offline (str ''ab, cd'') ab_cd_question True
      = veto_verdict (str ''AB, CD'') None"
    by (simp add: evaluate_answer_def Let_def ab_cd_question_def string_eval stage_eval)
  have c: "mset (list_items (str ''B, A, C'')) = mset (list_items (strip (qd_answer abc_question)))"
    "list_items (str ''B, A, C'') \<noteq> list_items (strip (qd_answer abc_question))"
    "length (list_items (str ''A B'')) < length (list_items (strip (qd_answer ab_question)))"
    by (simp_all add: abc_question_def ab_question_def list_items_def string_eval)
  have d: "is_correct (evaluate_answer offline (str ''B, A, C'') abc_question True)"
    by (simp add: evaluate_answer_def Let_def abc_question_def string_eval stage_eval offline_eval)
  have e: "is_correct (evaluate_answer offline (str ''A B'') ab_question True)"
    by (simp add: evaluate_answer_def Let_def ab_question_def string_eval stage_eval offline_eval)
  show ?thesis unfolding b using a c d e by (simp add: verdict_simps)
qed

section \<open>Grading over HTTP: the endpoint and the cascade\<close>

lemma py_round_100: "py_round 100 = 100" "py_round 0 = 0"
  by (simp_all add: py_round_def)

lemma find_os1: "find_question two_rows (str ''os-1'') = Inr list_row"
  by (simp add: find_question_def id_category_def no_known_category_def
      QUESTION_TYPE_MAPPING_def query_first_def query_all_def two_rows_def list_row_def str_def Let_def)

lemma find_network1: "find_question two_rows (str ''network-1'') = Inr tcp_row"
  by (simp add: find_question_def id_category_def no_known_category_def
      QUESTION_TYPE_MAPPING_def query_first_def query_all_def two_rows_def tcp_row_def str_def Let_def)

text \<open>
  The lookup finds a question that is stored in the table that the prefix of its id names.
\<close>

lemma find_question_by_prefix:
  assumes "id_category qid = Some name" and "map_of QUESTION_TYPE_MAPPING name = Some c"
    and "\<not> broken db (Questions c)" and "find (\<lambda>q. q_id q = qid) (rows db c) = Some q"
  shows "find_question db qid = Inr q"
proof -
  have "map_of QUESTION_TYPE_MAPPING [] = None"
    by (simp add: QUESTION_TYPE_MAPPING_def str_def)
  with assms(2) have "name \<noteq> []" by auto
  with assms show ?thesis
    by (simp add: find_question_def no_known_category_def query_first_def query_all_def Let_def)
qed

text \<open>
  Claim C1 says that the verdict of \<open>POST /api/evaluate\<close> is the verdict of the cascade
  of the grading engine, so that the endpoint accepts exactly what the cascade accepts.
  The router grades with a function of its own instead. What holds: for every question
  that the endpoint's lookup finds and every submitted answer, the verdict is correct with
  score 1 when the answer equals the stored answer after lower-casing and trimming, and
  incorrect with score 0 otherwise.
\<close>

theorem evaluate_endpoint_verdict:
  assumes "find_question db (question_id request) = Inr q"
  shows "evaluate_user_answer E db request
           = Inr \<lparr>is_correct =
                    (strip (str_lower E (answer request)) = strip (str_lower E (q_answer q))),
                  score =
                    (if strip (str_lower E (answer request)) = strip (str_lower E (q_answer q))
                     then 1 else 0),
                  feedback =
                    (if strip (str_lower E (answer request)) = strip (str_lower E (q_answer q))
                     then Correct else WrongShort),
                  missing_points = [], incorrect_points = [],
                  correct_answer = Some (q_answer q), example = q_example q\<rparr>"
  using assms
  by (simp add: evaluate_user_answer_def api_evaluate_answer_def Let_def py_round_100)

text \<open>The theorem at the answer \<open>" a, b, c"\<close> to the stored \<open>"A, B, C"\<close>.\<close>

theorem evaluate_endpoint_verdict_witness:
  "find_question two_rows (question_id \<lparr>question_id = str ''os-1'', answer = str '' a, b, c''\<rparr>)
     = Inr list_row
   \<and> evaluate_user_answer offline two_rows \<lparr>question_id = str ''os-1'', answer = str '' a, b, c''\<rparr>
     = Inr \<lparr>is_correct = True, score = 1, feedback = Correct, missing_points = [],
            incorrect_points = [], correct_answer = Some (str ''A, B, C''), example = None\<rparr>"
proof -
  have h: "find_question two_rows (question_id \<lparr>question_id = str ''os-1'', answer = str '' a, b, c''\<rparr>)
     = Inr list_row"
    by (simp add: find_os1)
  have e: "strip (str_lower offline (answer \<lparr>question_id = str ''os-1'', answer = str '' a, b, c''\<rparr>))
      = strip (str_lower offline (q_answer list_row))"
    by (simp add: list_row_def string_eval offline_eval)
  from evaluate_endpoint_verdict[OF h, of offline] e h show ?thesis
    by (simp add: list_row_def)
qed

text \<open>
  Claim C1 fails in both directions. The endpoint rejects the answer \<open>"a,b,c"\<close> to the
  stored \<open>"A, B, C"\<close>, which the list stage of the cascade accepts; it accepts the
  answer \<open>"tcp"\<close> to the question that asks for an English abbreviation and stores
  \<open>"TCP"\<close>, which the cascade vetoes.
\<close>

theorem evaluate_endpoint_counterexample:
  "find_question two_rows (str ''os-1'') = Inr list_row
   \<and> evaluate_user_answer offline two_rows \<lparr>question_id = str ''os-1'', answer = str ''a,b,c''\<rparr>
     = Inr \<lparr>is_correct = False, score = 0, feedback = WrongShort, missing_points = [],
            incorrect_points = [], correct_answer = Some (str ''A, B, C''), example = None\<rparr>
   \<and> is_correct (evaluate_answer offline (str ''a,b,c'') (row_data list_row) True)
   \<and> find_question two_rows (str ''network-1'') = Inr tcp_row
   \<and> evaluate_user_answer offline two_rows \<lparr>question_id = str ''network-1'', answer = str ''tcp''\<rparr>
     = Inr \<lparr>is_correct = True, score = 1, feedback = Correct, missing_points = [],
            incorrect_points = [], correct_answer = Some (str ''TCP''), example = None\<rparr>
   \<and> \<not> is_correct (evaluate_answer offline (str ''tcp'') (row_data tcp_row) True)"
proof -
  have a: "evaluate_user_answer offline two_rows \<lparr>question_id = str ''os-1'', answer = str ''a,b,c''\<rparr>
     = Inr \<lparr>is_correct = False, score = 0, feedback = WrongShort, missing_points = [],
            incorrect_points = [], correct_answer = Some (str ''A, B, C''), example = None\<rparr>"
    unfolding evaluate_user_answer_def answer_request.select_convs find_os1
    by (simp add: api_evaluate_answer_def Let_def py_round_100 list_row_def string_eval
        offline_eval)
  have b: "evaluate_answer offline (str ''a,b,c'') (row_data list_row) True
      = correct_verdict (str ''A, B, C'') None"
    by (simp add: evaluate_answer_def Let_def row_data_def list_row_def string_eval stage_eval
        offline_eval)
  have c: "evaluate_user_answer offline two_rows \<lparr>question_id = str ''network-1'', answer = str ''tcp''\<rparr>
     = Inr \<lparr>is_correct = True, score = 1, feedback = Correct, missing_points = [],
            incorrect_points = [], correct_answer = Some (str ''TCP''), example = None\<rparr>"
    unfolding evaluate_user_answer_def answer_request.select_convs find_network1
    by (simp add: api_evaluate_answer_def Let_def py_round_100 tcp_row_def string_eval
        offline_eval)
  have d: "evaluate_answer offline (str ''tcp'') (row_data tcp_row) True
      = veto_verdict (str ''TCP'') None"
    by (simp add: evaluate_answer_def Let_def row_data_def tcp_row_def string_eval stage_eval)
  show ?thesis unfolding b d using a c find_os1 find_network1 by (simp add: verdict_simps)
qed

section \<open>Recording misses\<close>

text \<open>
  A repeated miss changes a row in place and keeps its user and question; a first miss
  adds a row for a pair that has none. Both keep the pairs of the table distinct, and so
  does the whole of \<open>submit_test\<close>, whether it returns or raises.
\<close>

lemma update_first_keys:
  "(\<And>x. key (f x) = key x) \<Longrightarrow> map key (update_first P f xs) = map key xs"
  by (induction xs) auto

lemma find_None_same_pair:
  "find (same_pair uid qid) was = None \<longleftrightarrow>
     (uid, qid) \<notin> set (map (\<lambda>w. (wa_user_id w, wa_question_id w)) was)"
  by (auto simp: find_None_iff same_pair_def)

lemma record_miss_unique:
  assumes "unique_pairs was"
  shows "unique_pairs (record_miss now uid qid category user_ans kws was)"
proof (cases "find (same_pair uid qid) was")
  case None
  then have "(uid, qid) \<notin> set (map (\<lambda>w. (wa_user_id w, wa_question_id w)) was)"
    using find_None_same_pair by blast
  with assms None show ?thesis by (simp add: record_miss_def unique_pairs_def)
next
  case (Some w)
  have "map (\<lambda>w. (wa_user_id w, wa_question_id w))
          (update_first (same_pair uid qid)
             (\<lambda>w. w\<lparr>wa_attempt_count := wa_attempt_count w + 1,
                    wa_user_answer := Some user_ans, wa_created_at := now\<rparr>) was)
        = map (\<lambda>w. (wa_user_id w, wa_question_id w)) was"
    by (rule update_first_keys) simp
  with assms Some show ?thesis by (simp add: record_miss_def unique_pairs_def)
qed

lemma update_first_last:
  "\<not> (\<exists>x \<in> set xs. P x) \<Longrightarrow> P y \<Longrightarrow> update_first P f (xs @ [y]) = xs @ [f y]"
  by (induction xs) auto

lemma find_last: "\<not> (\<exists>x \<in> set xs. P x) \<Longrightarrow> P y \<Longrightarrow> find P (xs @ [y]) = Some y"
  by (induction xs) auto

lemma filter_none: "\<not> (\<exists>x \<in> set xs. P x) \<Longrightarrow> filter P xs = []"
  by (induction xs) auto

lemma record_miss_twice:
  assumes "\<not> (\<exists>w \<in> set was. same_pair uid qid w)"
  shows "\<exists>w. filter (same_pair uid qid)
               (record_miss now' uid qid category' user_ans' kws'
                  (record_miss now uid qid category user_ans kws was)) = [w]
             \<and> wa_attempt_count w = 2 \<and> wa_user_answer w = Some user_ans'"
proof -
  let ?new = "\<lparr>wa_id = next_id was, wa_user_id = uid, wa_question_id = qid,
                  wa_question_category = category, wa_user_answer = Some user_ans,
                  wa_created_at = now, wa_attempt_count = 1, wa_keywords = kws\<rparr>"
  let ?upd = "\<lambda>w. w\<lparr>wa_attempt_count := wa_attempt_count w + 1,
                    wa_user_answer := Some user_ans', wa_created_at := now'\<rparr>"
  have none: "find (same_pair uid qid) was = None"
    using assms by (simp add: find_None_iff)
  then have first: "record_miss now uid qid category user_ans kws was = was @ [?new]"
    by (simp add: record_miss_def)
  have p: "same_pair uid qid ?new" by (simp add: same_pair_def)
  have "find (same_pair uid qid) (was @ [?new]) = Some ?new"
    using assms p by (rule find_last)
  then have "record_miss now' uid qid category' user_ans' kws' (was @ [?new])
      = update_first (same_pair uid qid) ?upd (was @ [?new])"
    by (simp add: record_miss_def)
  also have "\<dots> = was @ [?upd ?new]"
    using assms p by (rule update_first_last)
  finally have second: "record_miss now' uid qid category' user_ans' kws'
      (record_miss now uid qid category user_ans kws was) = was @ [?upd ?new]"
    by (simp only: first)
  have "filter (same_pair uid qid) (was @ [?upd ?new]) = [?upd ?new]"
    using assms by (simp add: filter_none same_pair_def)
  then show ?thesis unfolding second by simp
qed

lemma grade_one_unique:
  assumes "unique_pairs (user_wrong_answers (g_db st))"
  shows "unique_pairs (user_wrong_answers (g_db (snd (grade_one E now usr answer_data st))))"
  using assms
  by (auto simp: grade_one_def Let_def record_miss_unique
      split: option.splits sum.splits prod.splits)

lemma grade_all_unique:
  "unique_pairs (user_wrong_answers (g_db st)) \<Longrightarrow>
   unique_pairs (user_wrong_answers (g_db (snd (grade_all E now usr ads st))))"
proof (induction ads arbitrary: st)
  case Nil
  then show ?case by simp
next
  case (Cons a ads)
  obtain r st' where g: "grade_one E now usr a st = (r, st')" by (cases "grade_one E now usr a st")
  with grade_one_unique[OF Cons.prems, of E now usr a]
  have u: "unique_pairs (user_wrong_answers (g_db st'))" by simp
  show ?case
  proof (cases r)
    case None
    with g Cons.IH[OF u] show ?thesis by simp
  next
    case (Some e)
    with g u show ?thesis by simp
  qed
qed

lemma submit_test_unique:
  assumes "unique_pairs (user_wrong_answers db)"
  shows "unique_pairs (user_wrong_answers (snd (submit_test E now db submission)))"
proof (cases "case ts_user_id submission of None \<Rightarrow> Inr None
              | Some uid \<Rightarrow> if uid = [] then Inr None else query_user db uid")
  case (Inl e)
  with assms show ?thesis by (simp add: submit_test_def)
next
  case (Inr usr)
  obtain r st where g: "grade_all E now usr (ts_answers submission)
      \<lparr>g_db = db, g_correct_count = 0, g_result_details = []\<rparr> = (r, st)"
    by (cases "grade_all E now usr (ts_answers submission)
      \<lparr>g_db = db, g_correct_count = 0, g_result_details = []\<rparr>")
  have "unique_pairs (user_wrong_answers (g_db (snd (grade_all E now usr (ts_answers submission)
          \<lparr>g_db = db, g_correct_count = 0, g_result_details = []\<rparr>))))"
    by (rule grade_all_unique) (simp add: assms)
  with g have "unique_pairs (user_wrong_answers (g_db st))" by simp
  with Inr g show ?thesis by (cases r) (simp_all add: submit_test_def Let_def)
qed

lemma submit_twice_wrong:
  "user_wrong_answers (snd (submit_test offline 7 one_user twice_wrong))
     = [\<lparr>wa_id = 1, wa_user_id = str ''u1'', wa_question_id = str ''os-1'',
         wa_question_category = str ''os'', wa_user_answer = Some (str ''y''),
         wa_created_at = 7, wa_attempt_count = 2, wa_keywords = None\<rparr>]"
  by (simp add: submit_test_def twice_wrong_def one_user_def two_rows_def list_row_def
      query_user_def grade_one_def submit_lookup_def id_category_def QUESTION_TYPE_MAPPING_def
      query_first_def query_all_def record_miss_def same_pair_def next_id_def Let_def
      string_eval offline_eval)

text \<open>
  Claim C7: a miss recorded twice for a user and a question leaves exactly one row for the
  pair, with \<open>attempt_count\<close> 2, and every recording of a miss keeps at most one row
  per pair, a repeat updating the row in place. The first part is about the first two
  misses of the pair, that is, a table that has no row for the pair before them (a later
  miss counts on from the row's count). The invariant holds for the recording block and
  for \<open>submit_test\<close> as a whole, on every store, submission and time.
\<close>

theorem miss_recording_keeps_one_row:
  "(\<not> (\<exists>w \<in> set was. same_pair uid qid w) \<longrightarrow>
      (\<exists>w. filter (same_pair uid qid)
              (record_miss now' uid qid category' user_ans' kws'
                 (record_miss now uid qid category user_ans kws was)) = [w]
            \<and> wa_attempt_count w = 2))
   \<and> (unique_pairs was \<longrightarrow> unique_pairs (record_miss now uid qid category user_ans kws was))
   \<and> (unique_pairs (user_wrong_answers db) \<longrightarrow>
        unique_pairs (user_wrong_answers (snd (submit_test E now db submission))))"
  using record_miss_twice[of was uid qid now' category' user_ans' kws' now category user_ans kws]
    record_miss_unique[of was now uid qid category user_ans kws]
    submit_test_unique[of db E now submission]
  by blast


text \<open>
  The theorem at the store with one user and no misses, and the submission with two wrong
  answers to question \<open>os-1\<close>, after which the table has one row, with count 2.
\<close>

theorem miss_recording_keeps_one_row_witness:
  "\<not> (\<exists>w \<in> set (user_wrong_answers one_user). same_pair (str ''u1'') (str ''os-1'') w)
   \<and> (\<exists>w. filter (same_pair (str ''u1'') (str ''os-1''))
             (record_miss 8 (str ''u1'') (str ''os-1'') (str ''os'') (str ''y'') None
                (record_miss 7 (str ''u1'') (str ''os-1'') (str ''os'') (str ''x'') None
                   (user_wrong_answers one_user))) = [w]
           \<and> wa_attempt_count w = 2)
   \<and> unique_pairs (user_wrong_answers one_user)
   \<and> unique_pairs (record_miss 7 (str ''u1'') (str ''os-1'') (str ''os'') (str ''x'') None
         (user_wrong_answers one_user))
   \<and> unique_pairs (user_wrong_answers (snd (submit_test offline 7 one_user twice_wrong)))
   \<and> map wa_attempt_count (user_wrong_answers (snd (submit_test offline 7 one_user twice_wrong)))
       = [2]"
proof -
  have e: "user_wrong_answers one_user = []" by (simp add: one_user_def two_rows_def)
  have h1: "\<not> (\<exists>w \<in> set (user_wrong_answers one_user). same_pair (str ''u1'') (str ''os-1'') w)"
    by (simp add: e)
  have h2: "unique_pairs (user_wrong_answers one_user)" by (simp add: e unique_pairs_def)
  have s: "map wa_attempt_count (user_wrong_answers (snd (submit_test offline 7 one_user twice_wrong)))
       = [2]"
    by (simp add: submit_twice_wrong)
  from miss_recording_keeps_one_row[of "user_wrong_answers one_user" "str ''u1''" "str ''os-1''"
      8 "str ''os''" "str ''y''" None 7 "str ''os''" "str ''x''" None one_user offline twice_wrong]
    h1 h2 s
  show ?thesis by blast
qed

section \<open>Assembly by quota: the standard test\<close>

text \<open>
  The rows with sampled ids are the sampled rows, the ids of a table being distinct; so a
  block of the plan whose table has enough rows gives exactly the wanted number of rows
  of its table, and the final shuffle keeps them all.
\<close>

lemma sampled_rows:
  assumes "distinct (map f xs)" "distinct ps" "\<forall>p \<in> set ps. p < length xs"
  shows "mset (filter (\<lambda>x. f x \<in> set (map (\<lambda>p. map f xs ! p) ps)) xs) = mset (map (\<lambda>p. xs ! p) ps)"
proof -
  have dx: "distinct xs" using assms(1) by (simp add: distinct_map)
  have inj: "inj_on f (set xs)" using assms(1) by (simp add: distinct_map)
  have in_xs: "xs ! p \<in> set xs" if "p \<in> set ps" for p using assms(3) that by simp
  have ids: "map f xs ! p = f (xs ! p)" if "p \<in> set ps" for p using assms(3) that by simp
  have "distinct (map (\<lambda>p. xs ! p) ps)"
    using assms(2,3) dx by (auto simp: distinct_map inj_on_def nth_eq_iff_index_eq)
  moreover have "distinct (filter (\<lambda>x. f x \<in> set (map (\<lambda>p. map f xs ! p) ps)) xs)"
    using dx by simp
  moreover have "set (filter (\<lambda>x. f x \<in> set (map (\<lambda>p. map f xs ! p) ps)) xs)
      = set (map (\<lambda>p. xs ! p) ps)"
  proof (intro set_eqI iffI)
    fix x
    assume "x \<in> set (filter (\<lambda>x. f x \<in> set (map (\<lambda>p. map f xs ! p) ps)) xs)"
    then obtain p where x: "x \<in> set xs" and p: "p \<in> set ps" "f x = map f xs ! p" by auto
    then have "f x = f (xs ! p)" by (simp add: ids)
    with inj x in_xs[OF p(1)] have "x = xs ! p" by (auto dest: inj_onD)
    with p(1) show "x \<in> set (map (\<lambda>p. xs ! p) ps)" by auto
  next
    fix x
    assume "x \<in> set (map (\<lambda>p. xs ! p) ps)"
    then obtain p where p: "p \<in> set ps" "x = xs ! p" by auto
    then have "x \<in> set xs" "f x = map f xs ! p" using in_xs ids by simp_all
    with p(1) show "x \<in> set (filter (\<lambda>x. f x \<in> set (map (\<lambda>p. map f xs ! p) ps)) xs)"
      by auto
  qed
  ultimately show ?thesis using set_eq_iff_mset_eq_distinct by blast
qed

lemma select_questions_ok:
  assumes "valid_random R" "\<not> broken db (Questions c)" "distinct (map q_id (rows db c))"
    and "0 < n" "n \<le> int (length (rows db c))"
  shows "\<exists>qs g'. select_questions R db c n g = Inr (qs, g') \<and> length qs = nat n
           \<and> mset qs \<subseteq># mset (rows db c)"
proof -
  let ?xs = "rows db c"
  obtain ps g' where s: "rnd_sample R g (length ?xs) (nat n) = (ps, g')"
    by (cases "rnd_sample R g (length ?xs) (nat n)")
  have k: "nat n \<le> length ?xs" using assms(5) by simp
  with assms(1) s have ps: "length ps = nat n" "distinct ps" "\<forall>p \<in> set ps. p < length ?xs"
    unfolding valid_random_def by (metis fst_conv)+
  let ?qs = "filter (\<lambda>q. q_id q \<in> set (map (\<lambda>p. map q_id ?xs ! p) ps)) ?xs"
  have "select_questions R db c n g = Inr (?qs, g')"
    using assms(2,5) s by (simp add: select_questions_def query_all_def random_sample_def Let_def)
  moreover have m: "mset ?qs = mset (map (\<lambda>p. ?xs ! p) ps)"
    using assms(3) ps(2,3) by (rule sampled_rows)
  then have "length ?qs = nat n" using ps(1) by (metis length_map size_mset)
  moreover have "mset ?qs \<subseteq># mset ?xs" by simp
  ultimately show ?thesis by blast
qed

lemma select_each_ok:
  assumes "valid_random R"
  shows "list_all (\<lambda>(c, n). \<not> broken db (Questions c) \<and> distinct (map q_id (rows db c))
              \<and> n \<le> int (length (rows db c))) plan \<Longrightarrow>
         \<exists>parts g'. select_each R db plan g = Inr (concat parts, g')
           \<and> list_all2 (\<lambda>(c, n) qs. int (length qs) = max 0 n \<and> mset qs \<subseteq># mset (rows db c))
                plan parts"
proof (induction plan arbitrary: g)
  case Nil
  then show ?case by simp
next
  case (Cons p plan)
  obtain c n where p: "p = (c, n)" by (cases p)
  from Cons.prems p have here: "\<not> broken db (Questions c)" "distinct (map q_id (rows db c))"
      "n \<le> int (length (rows db c))"
    and rest: "list_all (\<lambda>(c, n). \<not> broken db (Questions c) \<and> distinct (map q_id (rows db c))
              \<and> n \<le> int (length (rows db c))) plan"
    by simp_all
  show ?case
  proof (cases "0 < n")
    case False
    from Cons.IH[OF rest, of g] obtain parts g' where
      "select_each R db plan g = Inr (concat parts, g')"
      "list_all2 (\<lambda>(c, n) qs. int (length qs) = max 0 n \<and> mset qs \<subseteq># mset (rows db c)) plan parts"
      by blast
    with False p have "select_each R db (p # plan) g = Inr (concat ([] # parts), g')
      \<and> list_all2 (\<lambda>(c, n) qs. int (length qs) = max 0 n \<and> mset qs \<subseteq># mset (rows db c))
           (p # plan) ([] # parts)"
      by simp
    then show ?thesis by blast
  next
    case True
    from select_questions_ok[OF assms here(1,2) True here(3), of g] obtain qs g1 where
      q: "select_questions R db c n g = Inr (qs, g1)" "length qs = nat n"
         "mset qs \<subseteq># mset (rows db c)"
      by blast
    from Cons.IH[OF rest, of g1] obtain parts g' where
      "select_each R db plan g1 = Inr (concat parts, g')"
      "list_all2 (\<lambda>(c, n) qs. int (length qs) = max 0 n \<and> mset qs \<subseteq># mset (rows db c)) plan parts"
      by blast
    with True p q have "select_each R db (p # plan) g = Inr (concat (qs # parts), g')
      \<and> list_all2 (\<lambda>(c, n) qs. int (length qs) = max 0 n \<and> mset qs \<subseteq># mset (rows db c))
           (p # plan) (qs # parts)"
      by simp
    then show ?thesis by blast
  qed
qed

lemma shuffle_mset:
  assumes "valid_random R"
  shows "mset (fst (random_shuffle R g xs)) = mset xs"
proof -
  obtain ps g' where s: "rnd_shuffle R g (length xs) = (ps, g')"
    by (cases "rnd_shuffle R g (length xs)")
  with assms have "mset ps = mset [0..<length xs]"
    unfolding valid_random_def by (metis fst_conv)
  then have "mset (map (\<lambda>p. xs ! p) ps) = mset (map (\<lambda>p. xs ! p) [0..<length xs])"
    by (metis mset_map)
  then show ?thesis using s by (simp add: random_shuffle_def map_nth)
qed


lemma floor_half: "\<lfloor>1 / 2 :: rat\<rfloor> = 0"
  by (simp add: floor_eq_iff)

lemma standard_plan:
  "quota_plan standard_config
     = [(OS, 3), (Network, 3), (DB, 3), (BaseSQL, 2), (HardSQL, 2), (Program, 6),
        (AppTest, 0), (AppDefect, 1)]"
  by (simp add: quota_plan_def standard_config_def py_int_def Let_def floor_half)

lemma valid_first_positions: "valid_random first_positions"
  by (simp add: valid_random_def first_positions_def)

lemma bank_rows: "length (rows bank c) = 6" "distinct (map q_id (rows bank c))"
  "\<not> broken bank t"
  by (simp_all add: bank_def bank_row_def distinct_map inj_on_def comp_def)

text \<open>
  Claim C6: provided every table holds at least its quota, the standard test has exactly
  20 questions: 3 of the os table, 3 of network, 3 of db, 4 of SQL, 6 of program and 1 of
  the application tables. The SQL and application counts are split by \<open>int(count * 0.5)\<close>
  for the first table and the rest for the second: 2 basic and 2 advanced SQL questions,
  no test question and 1 defect question. The hypotheses are those of the claim (the
  tables can be read and hold their quota), the primary key of each table, and the
  library's promise about \<open>random.sample\<close> and \<open>random.shuffle\<close>.
\<close>

theorem standard_test_composition:
  assumes "valid_random R"
    and "\<forall>c. \<not> broken db (Questions c)"
    and "\<forall>c. distinct (map q_id (rows db c))"
    and "3 \<le> length (rows db OS)" "3 \<le> length (rows db Network)" "3 \<le> length (rows db DB)"
    and "2 \<le> length (rows db BaseSQL)" "2 \<le> length (rows db HardSQL)"
    and "6 \<le> length (rows db Program)" "1 \<le> length (rows db AppDefect)"
  shows "length (create_standard_test R g db) = 20
     \<and> (\<exists>parts. mset (create_standard_test R g db) = mset (concat parts)
           \<and> list_all2 (\<lambda>(c, n) qs. length qs = n \<and> mset qs \<subseteq># mset (rows db c))
                [(OS, 3), (Network, 3), (DB, 3), (BaseSQL, 2), (HardSQL, 2), (Program, 6),
                 (AppTest, 0), (AppDefect, 1)] parts)"
proof -
  have "list_all (\<lambda>(c, n). \<not> broken db (Questions c) \<and> distinct (map q_id (rows db c))
              \<and> n \<le> int (length (rows db c))) (quota_plan standard_config)"
    using assms(2-) by (simp add: standard_plan)
  from select_each_ok[OF assms(1) this, of g] obtain parts g' where
    s: "select_each R db (quota_plan standard_config) g = Inr (concat parts, g')"
    and p: "list_all2 (\<lambda>(c, n) qs. int (length qs) = max 0 n \<and> mset qs \<subseteq># mset (rows db c))
                (quota_plan standard_config) parts"
    by blast
  have t: "create_standard_test R g db = fst (random_shuffle R g' (concat parts))"
    using s by (simp add: create_standard_test_def create_custom_test_def standard_config_def)
  have m: "mset (create_standard_test R g db) = mset (concat parts)"
    unfolding t using assms(1) by (rule shuffle_mset)
  have p': "list_all2 (\<lambda>(c, n) qs. length qs = n \<and> mset qs \<subseteq># mset (rows db c))
                [(OS, 3), (Network, 3), (DB, 3), (BaseSQL, 2), (HardSQL, 2), (Program, 6),
                 (AppTest, 0), (AppDefect, 1)] parts"
    using p unfolding standard_plan by (auto simp: list_all2_Cons1)
  then have "length (concat parts) = 20"
    by (auto simp: list_all2_Cons1)
  then have "length (create_standard_test R g db) = 20"
    using m by (metis size_mset)
  with m p' show ?thesis by blast
qed


text \<open>The theorem at the bank with six questions in each table.\<close>

theorem standard_test_composition_witness:
  "valid_random first_positions \<and> (\<forall>c. \<not> broken bank (Questions c))
   \<and> (\<forall>c. distinct (map q_id (rows bank c)))
   \<and> 3 \<le> length (rows bank OS) \<and> 3 \<le> length (rows bank Network) \<and> 3 \<le> length (rows bank DB)
   \<and> 2 \<le> length (rows bank BaseSQL) \<and> 2 \<le> length (rows bank HardSQL)
   \<and> 6 \<le> length (rows bank Program) \<and> 1 \<le> length (rows bank AppDefect)
   \<and> length (create_standard_test first_positions () bank) = 20
   \<and> (\<exists>parts. mset (create_standard_test first_positions () bank) = mset (concat parts)
         \<and> list_all2 (\<lambda>(c, n) qs. length qs = n \<and> mset qs \<subseteq># mset (rows bank c))
              [(OS, 3), (Network, 3), (DB, 3), (BaseSQL, 2), (HardSQL, 2), (Program, 6),
               (AppTest, 0), (AppDefect, 1)] parts)"
proof -
  have h2: "\<forall>c. \<not> broken bank (Questions c)" by (simp add: bank_rows)
  have h3: "\<forall>c. distinct (map q_id (rows bank c))" by (simp add: bank_rows)
  have h4: "3 \<le> length (rows bank OS)" "3 \<le> length (rows bank Network)"
    "3 \<le> length (rows bank DB)" "2 \<le> length (rows bank BaseSQL)"
    "2 \<le> length (rows bank HardSQL)" "6 \<le> length (rows bank Program)"
    "1 \<le> length (rows bank AppDefect)"
    by (simp_all add: bank_rows)
  from standard_test_composition[OF valid_first_positions h2 h3 h4, of "()"]
    valid_first_positions h2 h3 h4
  show ?thesis by blast
qed

section \<open>Assembly: errors of the store\<close>

lemma select_questions_broken:
  "broken db (Questions c) \<Longrightarrow> select_questions R db c n g = Inl SQLAlchemyError"
  by (simp add: select_questions_def query_all_def)

lemma select_each_broken:
  "(c, n) \<in> set plan \<Longrightarrow> 0 < n \<Longrightarrow> broken db (Questions c) \<Longrightarrow>
   \<exists>e. select_each R db plan g = Inl e"
proof (induction plan arbitrary: g)
  case Nil
  then show ?case by simp
next
  case (Cons p plan)
  obtain c' n' where p: "p = (c', n')" by (cases p)
  show ?case
  proof (cases "p = (c, n)")
    case True
    with Cons.prems show ?thesis by (simp add: select_questions_broken)
  next
    case False
    with Cons.prems have "(c, n) \<in> set plan" by simp
    then have ih: "\<exists>e. select_each R db plan g' = Inl e" for g'
      using Cons.IH Cons.prems(2,3) by blast
    show ?thesis
    proof (cases "0 < n'")
      case False
      with p ih show ?thesis by simp
    next
      case True
      show ?thesis
      proof (cases "select_questions R db c' n' g")
        case (Inl e)
        with p True show ?thesis by simp
      next
        case (Inr r)
        obtain qs g' where "r = (qs, g')" by (cases r)
        with Inr p True ih[of g'] show ?thesis by auto
      qed
    qed
  qed
qed

lemma custom_test_broken:
  "(c, n) \<in> set (quota_plan config) \<Longrightarrow> 0 < n \<Longrightarrow> broken db (Questions c) \<Longrightarrow>
   create_custom_test R g db config = []"
  using select_each_broken[of c n "quota_plan config" db R g]
  by (auto simp: create_custom_test_def)

lemma personalized_broken:
  assumes "0 \<le> wrong_ratio" "wrong_ratio \<le> 1" "5 \<le> total_questions" "total_questions \<le> 50"
    and "broken db Users \<or> broken db UserWrongAnswers"
  shows "create_personalized_test R g db uid wrong_ratio total_questions = Inl (HTTPException 500)"
proof -
  have "\<exists>e. personalized_body R g db uid wrong_ratio total_questions = Inl e"
    using assms(5)
    by (auto simp: personalized_body_def query_user_def split: option.splits)
  with assms(1-4) show ?thesis by (auto simp: create_personalized_test_def)
qed

text \<open>
  Claim C10 says that both modes of assembly catch an error of the store and return the
  empty sequence. The quota mode does. The handler of the personalized mode catches the
  error and raises it again as the HTTP status 500. What holds: whatever the body of
  \<open>create_custom_test\<close> raises, the result is the empty list, in particular when a table
  that the quota plan reads with a positive count cannot be read; whatever the body of
  \<open>create_personalized_test\<close> raises (its parameters within their bounds), the request
  ends with status 500, in particular when the table of users or of misses cannot be read.
\<close>

theorem repository_errors:
  "(select_each R db (quota_plan config) g = Inl e
      \<longrightarrow> create_custom_test R g db config = [])
   \<and> ((c, n) \<in> set (quota_plan config) \<and> 0 < n \<and> broken db (Questions c)
      \<longrightarrow> create_custom_test R g db config = [])
   \<and> (0 \<le> wrong_ratio \<and> wrong_ratio \<le> 1 \<and> 5 \<le> total_questions \<and> total_questions \<le> 50
       \<and> personalized_body R g db uid wrong_ratio total_questions = Inl e'
      \<longrightarrow> create_personalized_test R g db uid wrong_ratio total_questions
            = Inl (HTTPException 500))
   \<and> (0 \<le> wrong_ratio \<and> wrong_ratio \<le> 1 \<and> 5 \<le> total_questions \<and> total_questions \<le> 50
       \<and> (broken db Users \<or> broken db UserWrongAnswers)
      \<longrightarrow> create_personalized_test R g db uid wrong_ratio total_questions
            = Inl (HTTPException 500))"
proof (intro conjI impI)
  assume "select_each R db (quota_plan config) g = Inl e"
  then show "create_custom_test R g db config = []" by (simp add: create_custom_test_def)
next
  assume "(c, n) \<in> set (quota_plan config) \<and> 0 < n \<and> broken db (Questions c)"
  then show "create_custom_test R g db config = []"
    using custom_test_broken[of c n config db R g] by blast
next
  assume "0 \<le> wrong_ratio \<and> wrong_ratio \<le> 1 \<and> 5 \<le> total_questions \<and> total_questions \<le> 50
       \<and> personalized_body R g db uid wrong_ratio total_questions = Inl e'"
  then show "create_personalized_test R g db uid wrong_ratio total_questions
            = Inl (HTTPException 500)"
    by (simp add: create_personalized_test_def)
next
  assume "0 \<le> wrong_ratio \<and> wrong_ratio \<le> 1 \<and> 5 \<le> total_questions \<and> total_questions \<le> 50
       \<and> (broken db Users \<or> broken db UserWrongAnswers)"
  then show "create_personalized_test R g db uid wrong_ratio total_questions
            = Inl (HTTPException 500)"
    using personalized_broken[of wrong_ratio total_questions db R g uid] by blast
qed

text \<open>The theorem at the store that cannot be reached.\<close>

theorem repository_errors_witness:
  "select_each first_positions store_down (quota_plan standard_config) () = Inl SQLAlchemyError
   \<and> (OS, 3) \<in> set (quota_plan standard_config) \<and> (0::int) < 3
   \<and> broken store_down (Questions OS)
   \<and> create_custom_test first_positions () store_down standard_config = []
   \<and> (0::rat) \<le> 1 / 2 \<and> (1 / 2::rat) \<le> 1 \<and> (5::int) \<le> 20 \<and> (20::int) \<le> 50
   \<and> personalized_body first_positions () store_down (str ''u1'') (1 / 2) 20
       = Inl SQLAlchemyError
   \<and> broken store_down Users
   \<and> create_personalized_test first_positions () store_down (str ''u1'') (1 / 2) 20
       = Inl (HTTPException 500)"
proof -
  have h0: "select_each first_positions store_down (quota_plan standard_config) ()
      = Inl SQLAlchemyError"
    by (simp add: standard_plan select_questions_broken store_down_def)
  have h1: "(OS, 3) \<in> set (quota_plan standard_config)" by (simp add: standard_plan)
  have h2: "broken store_down (Questions OS)" by (simp add: store_down_def)
  have h3: "broken store_down Users" by (simp add: store_down_def)
  have h4: "personalized_body first_positions () store_down (str ''u1'') (1 / 2) 20
      = Inl SQLAlchemyError"
    by (simp add: personalized_body_def query_user_def store_down_def)
  from repository_errors[of first_positions store_down standard_config "()" SQLAlchemyError
      OS 3 "1 / 2" 20 "str ''u1''" SQLAlchemyError] h0 h1 h2 h3 h4
  show ?thesis by simp
qed

text \<open>
  Claim C10 fails for the personalized mode at the store that cannot be reached: the
  request ends with status 500, not with an empty list.
\<close>

theorem repository_errors_counterexample:
  "broken store_down Users
   \<and> create_personalized_test first_positions () store_down (str ''u1'') (1 / 2) 20
       = Inl (HTTPException 500)
   \<and> create_personalized_test first_positions () store_down (str ''u1'') (1 / 2) 20 \<noteq> Inr []"
  by (simp add: store_down_def create_personalized_test_def personalized_body_def query_user_def)

section \<open>The personalized test without history\<close>

text \<open>
  Claim C9: for a user with no row in the table of misses, two runs of the personalized
  assembly on the same store and the same random source that differ only in
  \<open>wrong_ratio\<close> give the same result. Both ratios are within the bounds of the query
  parameter.
\<close>

theorem no_history_ignores_wrong_ratio:
  assumes "filter (\<lambda>w. wa_user_id w = uid) (user_wrong_answers db) = []"
    and "0 \<le> r1" "r1 \<le> 1" "0 \<le> r2" "r2 \<le> 1"
  shows "create_personalized_test R g db uid r1 total_questions
         = create_personalized_test R g db uid r2 total_questions"
proof (cases "5 \<le> total_questions \<and> total_questions \<le> 50")
  case False
  then show ?thesis by (auto simp: create_personalized_test_def)
next
  case True
  have z: "min 0 (py_int (of_int total_questions * r)) = 0" if "0 \<le> r" for r :: rat
  proof -
    have "0 \<le> of_int total_questions * r" using True that by simp
    then have "0 \<le> py_int (of_int total_questions * r)" by (simp add: py_int_def)
    then show ?thesis by simp
  qed
  have "personalized_body R g db uid r1 total_questions
        = personalized_body R g db uid r2 total_questions"
    using assms(1) z[OF assms(2)] z[OF assms(4)]
    by (simp add: personalized_body_def count_keywords_def keyword_search_def Let_def
        cong: sum.case_cong option.case_cong)
  with assms(2-5) show ?thesis by (simp add: create_personalized_test_def)
qed

text \<open>The theorem at the bank, whose user has no misses, and the ratios 0.5 and 0.9.\<close>

theorem no_history_ignores_wrong_ratio_witness:
  "filter (\<lambda>w. wa_user_id w = str ''u1'') (user_wrong_answers bank) = []
   \<and> (0::rat) \<le> 1 / 2 \<and> (1 / 2::rat) \<le> 1 \<and> (0::rat) \<le> 9 / 10 \<and> (9 / 10::rat) \<le> 1
   \<and> create_personalized_test first_positions () bank (str ''u1'') (1 / 2) 20
       = create_personalized_test first_positions () bank (str ''u1'') (9 / 10) 20"
proof -
  have h: "filter (\<lambda>w. wa_user_id w = str ''u1'') (user_wrong_answers bank) = []"
    by (simp add: bank_def)
  from no_history_ignores_wrong_ratio[OF h, of "1 / 2" "9 / 10" first_positions "()" 20] h
  show ?thesis by simp
qed


section \<open>The personalized test without history: how many questions\<close>

text \<open>
  Without history all of \<open>total_questions\<close> are to be filled at random. The loop visits
  each of the nine categories once and takes \<open>total_questions // 9\<close> questions from it.
  When the ids are distinct over all tables and every table has that many rows, each visit
  adds exactly that many questions with new ids, and the last step removes none.
\<close>

lemma unique_loop_all:
  "distinct (map q_id qs) \<Longrightarrow> set (map q_id qs) \<inter> set ids = {} \<Longrightarrow>
   int (length acc + length qs) \<le> total_questions \<Longrightarrow>
   unique_loop total_questions qs ids acc = acc @ qs"
proof (induction qs arbitrary: ids acc)
  case Nil
  then show ?case by simp
next
  case (Cons q qs)
  have "unique_loop total_questions qs (q_id q # ids) (acc @ [q]) = (acc @ [q]) @ qs"
    using Cons.prems by (intro Cons.IH) auto
  with Cons.prems show ?case by auto
qed

lemma distinct_map_nth:
  "distinct ys \<Longrightarrow> distinct ps \<Longrightarrow> \<forall>p \<in> set ps. p < length ys \<Longrightarrow>
   distinct (map (\<lambda>p. ys ! p) ps)"
  by (auto simp: distinct_map inj_on_def nth_eq_iff_index_eq)

lemma sample_rows:
  assumes "valid_random R" "k \<le> length xs" "distinct (map f xs)"
  shows "length (fst (random_sample R g xs k)) = k
       \<and> distinct (map f (fst (random_sample R g xs k)))
       \<and> set (fst (random_sample R g xs k)) \<subseteq> set xs"
proof -
  obtain ps g' where s: "rnd_sample R g (length xs) k = (ps, g')"
    by (cases "rnd_sample R g (length xs) k")
  with assms(1,2) have ps: "length ps = k" "distinct ps" "\<forall>p \<in> set ps. p < length xs"
    unfolding valid_random_def by (metis fst_conv)+
  have r: "fst (random_sample R g xs k) = map (\<lambda>p. xs ! p) ps"
    using s by (simp add: random_sample_def)
  have e: "map f (map (\<lambda>p. xs ! p) ps) = map (\<lambda>p. map f xs ! p) ps"
    using ps(3) by simp
  have "distinct (map (\<lambda>p. map f xs ! p) ps)"
    using assms(3) ps(2) by (rule distinct_map_nth) (simp add: ps(3))
  then have "distinct (map f (map (\<lambda>p. xs ! p) ps))" unfolding e .
  moreover have "set (map (\<lambda>p. xs ! p) ps) \<subseteq> set xs" using ps(3) by auto
  ultimately show ?thesis using ps(1) r by simp
qed

lemma fill_random_even:
  assumes "valid_random R" "1 \<le> k"
  shows "distinct (concat (map (table_ids db) cs)) \<Longrightarrow>
     list_all (\<lambda>c. \<not> broken db (Questions c) \<and> k \<le> int (length (rows db c))) cs \<Longrightarrow>
     set (concat (map (table_ids db) cs)) \<inter> set selected_ids = {} \<Longrightarrow>
     k * int (length cs) \<le> remaining \<Longrightarrow>
     \<exists>res g'. fill_random R db k cs (selected_ids, result, remaining, g)
                 = Inr (selected_ids @ map q_id res, result @ res,
                        remaining - k * int (length cs), g')
              \<and> int (length res) = k * int (length cs)
              \<and> distinct (map q_id res)
              \<and> set (map q_id res) \<subseteq> set (concat (map (table_ids db) cs))"
proof (induction cs arbitrary: selected_ids result remaining g)
  case Nil
  then show ?case by simp
next
  case (Cons c cs)
  let ?xs = "rows db c"
  from Cons.prems(2) have ok: "\<not> broken db (Questions c)" "k \<le> int (length ?xs)"
    and oks: "list_all (\<lambda>c. \<not> broken db (Questions c) \<and> k \<le> int (length (rows db c))) cs"
    by simp_all
  from Cons.prems(1) have dc': "distinct (table_ids db c)"
    and dcs: "distinct (concat (map (table_ids db) cs))"
    and disj': "set (table_ids db c) \<inter> set (concat (map (table_ids db) cs)) = {}"
    by simp_all
  have dc: "distinct (map q_id ?xs)" using dc' by (simp add: table_ids_def)
  have disj: "set (map q_id ?xs) \<inter> set (concat (map (table_ids db) cs)) = {}"
    using disj' by (simp add: table_ids_def)
  have here: "set (table_ids db c) = set (map q_id ?xs)" by (simp add: table_ids_def)
  have pos: "0 < remaining"
  proof -
    have "k \<le> k * int (length (c # cs))" using assms(2) by (simp add: algebra_simps)
    with Cons.prems(4) assms(2) show ?thesis by linarith
  qed
  have kr: "min k remaining = k"
  proof -
    have "k \<le> k * int (length (c # cs))" using assms(2) by (simp add: algebra_simps)
    with Cons.prems(4) show ?thesis by simp
  qed
  have "set (map q_id ?xs) \<inter> set selected_ids = {}"
    using Cons.prems(3) here by auto
  then have all: "filter (\<lambda>q. q_id q \<notin> set selected_ids) ?xs = ?xs"
    by (auto simp: filter_id_conv)
  have ne: "?xs \<noteq> []" using ok(2) assms(2) by auto
  define pick where "pick = (if int (length ?xs) > k then random_sample R g ?xs (nat k) else (?xs, g))"
  obtain selected g1 where sel: "pick = (selected, g1)" by (cases pick)
  have props: "int (length selected) = k \<and> distinct (map q_id selected) \<and> set selected \<subseteq> set ?xs"
  proof (cases "int (length ?xs) > k")
    case True
    then have "nat k \<le> length ?xs" by simp
    from sample_rows[OF assms(1) this dc, of g] sel True assms(2)
    show ?thesis by (simp add: pick_def)
  next
    case False
    with ok(2) sel dc show ?thesis by (auto simp: pick_def)
  qed
  have step: "fill_random R db k (c # cs) (selected_ids, result, remaining, g)
      = fill_random R db k cs (selected_ids @ map q_id selected, result @ selected,
          remaining - int (length selected), g1)"
    using pos ok(1) kr all ne sel
    by (simp add: query_all_def Let_def pick_def)
  have sub: "set (map q_id selected) \<subseteq> set (map q_id ?xs)" using props by auto
  have "set (concat (map (table_ids db) cs)) \<inter> set selected_ids = {}"
    using Cons.prems(3) by auto
  moreover have "set (concat (map (table_ids db) cs)) \<inter> set (map q_id selected) = {}"
    using disj sub by blast
  ultimately have disj2:
    "set (concat (map (table_ids db) cs)) \<inter> set (selected_ids @ map q_id selected) = {}"
    unfolding set_append by blast
  have rem': "k * int (length cs) \<le> remaining - int (length selected)"
    using Cons.prems(4) props by (simp add: algebra_simps)
  from Cons.IH[OF dcs oks disj2 rem', of "result @ selected" g1] obtain res g' where
    ih: "fill_random R db k cs (selected_ids @ map q_id selected, result @ selected,
            remaining - int (length selected), g1)
         = Inr ((selected_ids @ map q_id selected) @ map q_id res, (result @ selected) @ res,
                remaining - int (length selected) - k * int (length cs), g')"
      "int (length res) = k * int (length cs)" "distinct (map q_id res)"
      "set (map q_id res) \<subseteq> set (concat (map (table_ids db) cs))"
    by blast
  have "fill_random R db k (c # cs) (selected_ids, result, remaining, g)
          = Inr (selected_ids @ map q_id (selected @ res), result @ (selected @ res),
                 remaining - k * int (length (c # cs)), g')"
    using step ih(1) props by (simp add: algebra_simps)
  moreover have "int (length (selected @ res)) = k * int (length (c # cs))"
    using props ih(2) by (simp add: algebra_simps)
  moreover have "distinct (map q_id (selected @ res))"
    using props ih(3,4) sub disj by auto
  moreover have "set (map q_id (selected @ res)) \<subseteq> set (concat (map (table_ids db) (c # cs)))"
    using sub ih(4) here by auto
  ultimately show ?case by blast
qed


lemma mset_concat_map:
  assumes "mset xs = mset ys"
  shows "mset (concat (map f xs)) = mset (concat (map f ys))"
proof -
  have "mset (concat (map f zs)) = sum_mset (image_mset (\<lambda>x. mset (f x)) (mset zs))" for zs
    by (induction zs) simp_all
  with assms show ?thesis by simp
qed

lemma no_history_body:
  assumes "filter (\<lambda>w. wa_user_id w = uid) (user_wrong_answers db) = []"
    and "find (\<lambda>u. u_id u = uid) (users db) = Some u"
    and "\<forall>t. \<not> broken db t"
    and "0 \<le> wrong_ratio" "0 < total_questions"
  shows "personalized_body R g db uid wrong_ratio total_questions
         = (case random_shuffle R g (map snd QUESTION_TYPE_MAPPING) of
              (categories, g') \<Rightarrow>
                (case fill_random R db (max 1 (total_questions div int (length categories)))
                        categories ([], [], total_questions, g') of
                   Inl e \<Rightarrow> Inl e
                 | Inr (ids, filled, remaining, g'') \<Rightarrow>
                     Inr (unique_loop total_questions (fst (random_shuffle R g'' filled)) [] [])))"
proof -
  have "0 \<le> of_int total_questions * wrong_ratio" using assms(4,5) by simp
  then have "0 \<le> py_int (of_int total_questions * wrong_ratio)" by (simp add: py_int_def)
  then have z: "min 0 (py_int (of_int total_questions * wrong_ratio)) = 0" by simp
  show ?thesis
    using assms(1,2,3,5) z
    by (simp add: personalized_body_def query_user_def count_keywords_def keyword_search_def
        Let_def split: prod.splits)
qed

lemma bank_ids_distinct:
  "distinct (concat (map (table_ids bank) (map snd QUESTION_TYPE_MAPPING)))"
  by (simp add: QUESTION_TYPE_MAPPING_def table_ids_def bank_def bank_row_def category_name_def
      str_def upt_rec[of _ "numeral _"] upt_rec[of _ "Suc _"])

text \<open>
  Claim C8 says that, for a user without history, the personalized assembly splits
  \<open>total_questions\<close> evenly over the nine categories, gives the remainder to the first
  categories, and so returns exactly \<open>total_questions\<close> questions when the tables hold
  enough. The loop makes one pass over the categories and no second one for the
  remainder: from 9 questions on, it returns 9 times the quotient, which is less than
  \<open>total_questions\<close> unless 9 divides it. The theorem is what the program does, for
  every store whose tables can be read, have ids distinct over all tables and hold the
  quotient each, and every well-behaved random source.
\<close>

theorem no_history_even_split:
  assumes "valid_random R"
    and "filter (\<lambda>w. wa_user_id w = uid) (user_wrong_answers db) = []"
    and "\<exists>u \<in> set (users db). u_id u = uid"
    and "\<forall>t. \<not> broken db t"
    and "0 \<le> wrong_ratio" "wrong_ratio \<le> 1" "9 \<le> total_questions" "total_questions \<le> 50"
    and "distinct (concat (map (table_ids db) (map snd QUESTION_TYPE_MAPPING)))"
    and "\<forall>c. total_questions div 9 \<le> int (length (rows db c))"
  shows "\<exists>qs. create_personalized_test R g db uid wrong_ratio total_questions = Inr qs
              \<and> int (length qs) = 9 * (total_questions div 9)"
proof -
  let ?k = "total_questions div 9"
  obtain u where u: "find (\<lambda>u. u_id u = uid) (users db) = Some u"
    using assms(3) by (cases "find (\<lambda>u. u_id u = uid) (users db)") (auto simp: find_None_iff)
  obtain categories g1 where sh: "random_shuffle R g (map snd QUESTION_TYPE_MAPPING) = (categories, g1)"
    by (cases "random_shuffle R g (map snd QUESTION_TYPE_MAPPING)")
  have m: "mset categories = mset (map snd QUESTION_TYPE_MAPPING)"
    using shuffle_mset[OF assms(1), of g "map snd QUESTION_TYPE_MAPPING"] sh by simp
  then have "length categories = length (map snd QUESTION_TYPE_MAPPING)" by (metis size_mset)
  then have len: "length categories = 9" by (simp add: QUESTION_TYPE_MAPPING_def)
  have k1: "1 \<le> ?k" using assms(7) by simp
  then have mk: "max 1 (total_questions div int (length categories)) = ?k" using len by simp
  have "mset (concat (map (table_ids db) categories))
      = mset (concat (map (table_ids db) (map snd QUESTION_TYPE_MAPPING)))"
    using m by (rule mset_concat_map)
  then have d: "distinct (concat (map (table_ids db) categories))"
    using assms(9) mset_eq_imp_distinct_iff by blast
  have l: "list_all (\<lambda>c. \<not> broken db (Questions c) \<and> ?k \<le> int (length (rows db c))) categories"
    using assms(4,10) by (simp add: list_all_iff)
  have e: "set (concat (map (table_ids db) categories)) \<inter> set [] = {}" by simp
  have r: "?k * int (length categories) \<le> total_questions" using len by simp
  from fill_random_even[OF assms(1) k1 d l e r, of "[]" g1] obtain res g2 where
    f: "fill_random R db ?k categories ([], [], total_questions, g1)
          = Inr ([] @ map q_id res, [] @ res, total_questions - ?k * int (length categories), g2)"
    and res: "int (length res) = ?k * int (length categories)" "distinct (map q_id res)"
    by blast
  let ?shuffled = "fst (random_shuffle R g2 res)"
  have ms: "mset ?shuffled = mset res" using assms(1) by (rule shuffle_mset)
  then have "mset (map q_id ?shuffled) = mset (map q_id res)" by (metis mset_map)
  then have ds: "distinct (map q_id ?shuffled)"
    using res(2) mset_eq_imp_distinct_iff by blast
  have ls: "length ?shuffled = length res" using ms by (metis size_mset)
  have "int (length ([] :: question list) + length ?shuffled) \<le> total_questions"
    using ls res(1) len by simp
  with ds have ul: "unique_loop total_questions ?shuffled [] [] = [] @ ?shuffled"
    by (intro unique_loop_all) simp_all
  have pos: "0 < total_questions" using assms(7) by simp
  have "personalized_body R g db uid wrong_ratio total_questions = Inr ?shuffled"
    unfolding no_history_body[OF assms(2) u assms(4,5) pos] sh
    using f ul mk by simp
  then have "create_personalized_test R g db uid wrong_ratio total_questions = Inr ?shuffled"
    using assms(5-8) by (simp add: create_personalized_test_def)
  moreover have "int (length ?shuffled) = 9 * ?k" using ls res(1) len by simp
  ultimately show ?thesis by blast
qed


text \<open>
  The theorem at the bank and the default of 20 questions: the request returns 18.
\<close>

theorem no_history_even_split_witness:
  "valid_random first_positions
   \<and> filter (\<lambda>w. wa_user_id w = str ''u1'') (user_wrong_answers bank) = []
   \<and> (\<exists>u \<in> set (users bank). u_id u = str ''u1'')
   \<and> (\<forall>t. \<not> broken bank t)
   \<and> (0::rat) \<le> 1 / 2 \<and> (1 / 2::rat) \<le> 1 \<and> (9::int) \<le> 20 \<and> (20::int) \<le> 50
   \<and> distinct (concat (map (table_ids bank) (map snd QUESTION_TYPE_MAPPING)))
   \<and> (\<forall>c. (20::int) div 9 \<le> int (length (rows bank c)))
   \<and> (\<exists>qs. create_personalized_test first_positions () bank (str ''u1'') (1 / 2) 20 = Inr qs
           \<and> length qs = 18)"
proof -
  have h2: "filter (\<lambda>w. wa_user_id w = str ''u1'') (user_wrong_answers bank) = []"
    by (simp add: bank_def)
  have h3: "\<exists>u \<in> set (users bank). u_id u = str ''u1''" by (simp add: bank_def)
  have h4: "\<forall>t. \<not> broken bank t" by (simp add: bank_rows)
  have h10: "\<forall>c. (20::int) div 9 \<le> int (length (rows bank c))" by (simp add: bank_rows)
  from no_history_even_split[OF valid_first_positions h2 h3 h4 _ _ _ _ bank_ids_distinct h10,
      of "1 / 2" "()"]
  have "\<exists>qs. create_personalized_test first_positions () bank (str ''u1'') (1 / 2) 20 = Inr qs
           \<and> length qs = 18"
    by simp
  with valid_first_positions h2 h3 h4 bank_ids_distinct h10 show ?thesis by simp
qed

end
